theory Spec2Isabelle
  imports Main
begin

section \<open>Data model (models/databaseObject.ts)\<close>

datatype DatabaseObjectType =
  Table | View | StoredProcedure | ScalarValuedFunction | TableValuedFunction | Synonym

datatype ObjectAction = Select | Create | Delete | Execute | Alter | InsertName

text \<open>
  \<^verbatim>\<open>DatabaseObjectItem\<close>: the three optional fields are \<open>None\<close> when the property is
  \<^verbatim>\<open>undefined\<close>.
\<close>

record DatabaseObjectItem =
  name :: string
  schema :: string
  type :: DatabaseObjectType
  database :: "string option"
  columns :: "string option"
  definition' :: "string option"

section \<open>JavaScript values and strings\<close>

text \<open>
  Strings are sequences of code units; the model covers the code units below 256, which
  is what \<^typ>\<open>char\<close> holds. A value of type \<^verbatim>\<open>string | undefined\<close> is a
  \<^typ>\<open>string option\<close>. A property of a query-result row is a \<open>cell\<close>: the row
  objects built by \<^verbatim>\<open>executeQuery\<close> hold \<^verbatim>\<open>null\<close> or a string, and a property
  that is not there reads as \<^verbatim>\<open>undefined\<close>.
\<close>

datatype cell = Undefined | Null | Str string

type_synonym row = "string \<Rightarrow> cell"

text \<open>Truthiness of \<^verbatim>\<open>string | undefined\<close>: only a non-empty string is truthy.\<close>

fun truthy :: "string option \<Rightarrow> bool" where
  "truthy None = False"
| "truthy (Some s) = (s \<noteq> [])"

text \<open>\<^verbatim>\<open>x || d\<close> for a row property \<open>x\<close> and a string \<open>d\<close>.\<close>

fun orElse :: "cell \<Rightarrow> string \<Rightarrow> string" where
  "orElse (Str s) d = (if s \<noteq> [] then s else d)"
| "orElse Undefined d = d"
| "orElse Null d = d"

text \<open>A row property inside a template literal: \<^verbatim>\<open>`${x}`\<close>.\<close>

fun template :: "cell \<Rightarrow> string" where
  "template (Str s) = s"
| "template Undefined = ''undefined''"
| "template Null = ''null''"

text \<open>The characters matched by \<^verbatim>\<open>\s\<close> and removed by \<^verbatim>\<open>trim()\<close>, and by \<^verbatim>\<open>\d\<close>.\<close>

definition isSpace :: "char \<Rightarrow> bool" where
  "isSpace c \<longleftrightarrow>
     c \<in> set [CHR 0x09, CHR 0x0A, CHR 0x0B, CHR 0x0C, CHR 0x0D, CHR '' '', CHR 0xA0]"

definition isDigit :: "char \<Rightarrow> bool" where
  "isDigit c \<longleftrightarrow> c \<in> set ''0123456789''"

definition upperChars :: string where
  "upperChars = ''ABCDEFGHIJKLMNOPQRSTUVWXYZ'' @
     [CHR 0xC0, CHR 0xC1, CHR 0xC2, CHR 0xC3, CHR 0xC4, CHR 0xC5, CHR 0xC6, CHR 0xC7,
      CHR 0xC8, CHR 0xC9, CHR 0xCA, CHR 0xCB, CHR 0xCC, CHR 0xCD, CHR 0xCE, CHR 0xCF,
      CHR 0xD0, CHR 0xD1, CHR 0xD2, CHR 0xD3, CHR 0xD4, CHR 0xD5, CHR 0xD6,
      CHR 0xD8, CHR 0xD9, CHR 0xDA, CHR 0xDB, CHR 0xDC, CHR 0xDD, CHR 0xDE]"

definition lowerChars :: string where
  "lowerChars = ''abcdefghijklmnopqrstuvwxyz'' @
     [CHR 0xE0, CHR 0xE1, CHR 0xE2, CHR 0xE3, CHR 0xE4, CHR 0xE5, CHR 0xE6, CHR 0xE7,
      CHR 0xE8, CHR 0xE9, CHR 0xEA, CHR 0xEB, CHR 0xEC, CHR 0xED, CHR 0xEE, CHR 0xEF,
      CHR 0xF0, CHR 0xF1, CHR 0xF2, CHR 0xF3, CHR 0xF4, CHR 0xF5, CHR 0xF6,
      CHR 0xF8, CHR 0xF9, CHR 0xFA, CHR 0xFB, CHR 0xFC, CHR 0xFD, CHR 0xFE]"

definition toLowerChar :: "char \<Rightarrow> char" where
  "toLowerChar c = (case map_of (zip upperChars lowerChars) c of Some l \<Rightarrow> l | None \<Rightarrow> c)"

text \<open>\<^verbatim>\<open>String.prototype.toLowerCase\<close>, \<^verbatim>\<open>trim\<close> and \<^verbatim>\<open>includes\<close>.\<close>

definition toLowerCase :: "string \<Rightarrow> string" where
  "toLowerCase s = map toLowerChar s"

definition trim :: "string \<Rightarrow> string" where
  "trim s = rev (dropWhile isSpace (rev (dropWhile isSpace s)))"

fun startsWith :: "string \<Rightarrow> string \<Rightarrow> bool" where
  "startsWith s [] = True"
| "startsWith [] (p # ps) = False"
| "startsWith (c # cs) (p # ps) = (c = p \<and> startsWith cs ps)"

fun includes' :: "string \<Rightarrow> string \<Rightarrow> bool" where
  "includes' [] needle = (needle = [])"
| "includes' (c # cs) needle = (startsWith (c # cs) needle \<or> includes' cs needle)"

text \<open>
  A number inside a template literal. The row limit is modelled as an integer; for a
  safe integer (see below) JavaScript prints its decimal digits, with a minus sign when
  it is negative.
\<close>

fun showNat :: "nat \<Rightarrow> string" where
  "showNat n =
     (if n < 10 then [''0123456789'' ! n]
      else showNat (n div 10) @ [''0123456789'' ! (n mod 10)])"

definition showInt :: "int \<Rightarrow> string" where
  "showInt i = (if i < 0 then ''-'' @ showNat (nat (- i)) else showNat (nat i))"

text \<open>
  \<^verbatim>\<open>Number.isSafeInteger\<close>: the integers that a JavaScript number holds exactly. For
  these the template literal prints \<open>showInt\<close>; beyond them, and for fractions, it does
  not, so every statement about a printed row limit assumes a safe integer.
\<close>

definition isSafeInteger :: "int \<Rightarrow> bool" where
  "isSafeInteger i \<longleftrightarrow> - 9007199254740991 \<le> i \<and> i \<le> 9007199254740991"

section \<open>Thrown values, logging and notifications (utils/logger.ts, ErrorHandler)\<close>

text \<open>
  A rejected promise or a \<^verbatim>\<open>throw\<close> carries a value: a string, an \<^verbatim>\<open>Error\<close> with its
  message, or another object with or without a \<^verbatim>\<open>message\<close> property. Every fallible
  call returns \<open>thrown + 'a\<close>, \<open>Inl\<close> being the exception.
\<close>

datatype thrown = ThrownString string | ThrownError string | ThrownObject "string option"

text \<open>
  The observable effects: \<^verbatim>\<open>Logger.warn\<close> and \<^verbatim>\<open>Logger.error\<close> (the message argument,
  without the fixed prefix), and the two notifications of \<^verbatim>\<open>vscode.window\<close>.
  \<^verbatim>\<open>Logger.debug\<close> and \<^verbatim>\<open>Logger.info\<close> lines are not recorded.
\<close>

datatype effect =
  LogWarn string | LogError string | ShowWarningMessage string | ShowErrorMessage string

fun extractMessage :: "thrown \<Rightarrow> string" where
  "extractMessage (ThrownString s) = s"
| "extractMessage (ThrownError m) = m"
| "extractMessage (ThrownObject None) = ''Unknown error''"
| "extractMessage (ThrownObject (Some m)) = (if m \<noteq> [] then m else ''Unknown error'')"

definition handle :: "thrown \<Rightarrow> string option \<Rightarrow> effect list" where
  "handle error context' =
     (let message = extractMessage error;
          fullMessage =
            (case context' of
               Some c \<Rightarrow> if c \<noteq> [] then c @ '': '' @ message else message
             | None \<Rightarrow> message)
      in [LogError fullMessage, ShowErrorMessage fullMessage])"

definition noConnectionMessage :: string where
  "noConnectionMessage =
     ''No active database connection. Please connect to a SQL Server database first.''"

definition handleNoConnection :: "effect list" where
  "handleNoConnection = [LogWarn noConnectionMessage, ShowWarningMessage noConnectionMessage]"

section \<open>Configuration (ConfigurationService)\<close>

record SearchEverywhereConfiguration =
  includeTableColumns :: bool
  tableAction :: ObjectAction
  viewAction :: ObjectAction
  storedProcedureAction :: ObjectAction
  functionAction :: ObjectAction
  scriptRowLimit :: int

fun getActionForType :: "SearchEverywhereConfiguration \<Rightarrow> DatabaseObjectType \<Rightarrow> ObjectAction" where
  "getActionForType config Table = tableAction config"
| "getActionForType config View = viewAction config"
| "getActionForType config StoredProcedure = storedProcedureAction config"
| "getActionForType config ScalarValuedFunction = functionAction config"
| "getActionForType config TableValuedFunction = functionAction config"
| "getActionForType config Synonym = Select"

section \<open>The injected ConnectionService, as the other services see it\<close>

text \<open>
  \<^verbatim>\<open>SearchService\<close>, \<^verbatim>\<open>ColumnService\<close> and \<^verbatim>\<open>ScriptingService\<close> receive the
  connection service through their constructors. Its behaviour is a parameter: each
  method answers from the list of calls made so far, so that answers may change over
  time, and a call may throw. The calls are recorded in order.
\<close>

datatype query = ALL_OBJECTS_QUERY | COLUMNS_QUERY

datatype call =
    GetCurrentConnectionUri
  | GetActiveDatabase
  | ExecuteQueryWithDatabase query "string option"
  | ScriptObject nat string string DatabaseObjectType

record connectionService =
  uriReply :: "call list \<Rightarrow> thrown + string option"
  databaseReply :: "call list \<Rightarrow> thrown + string option"
  queryReply :: "call list \<Rightarrow> query \<Rightarrow> string option \<Rightarrow> thrown + row list option"
  scriptReply ::
    "call list \<Rightarrow> nat \<Rightarrow> string \<Rightarrow> string \<Rightarrow> DatabaseObjectType \<Rightarrow> thrown + string option"

text \<open>
  The state shared by one activation: the catalog cache of \<^verbatim>\<open>SearchService\<close>, the column
  cache of \<^verbatim>\<open>ColumnService\<close>, the calls made to the connection service and the effects.
\<close>

record world =
  objectsCache :: "string \<rightharpoonup> DatabaseObjectItem list"
  columnCache :: "string \<rightharpoonup> (string \<rightharpoonup> string)"
  calls :: "call list"
  effects :: "effect list"

definition called :: "call \<Rightarrow> world \<Rightarrow> world" where
  "called c w = w\<lparr>calls := calls w @ [c]\<rparr>"

definition emit :: "effect list \<Rightarrow> world \<Rightarrow> world" where
  "emit es w = w\<lparr>effects := effects w @ es\<rparr>"

section \<open>SearchService: the catalog cache\<close>

fun mapObjectType :: "cell \<Rightarrow> DatabaseObjectType" where
  "mapObjectType (Str t) =
     (if t = ''TABLE'' \<or> t = ''USER_TABLE'' then Table
      else if t = ''VIEW'' then View
      else if t = ''SQL_STORED_PROCEDURE'' then StoredProcedure
      else if t = ''SQL_SCALAR_FUNCTION'' then ScalarValuedFunction
      else if t = ''SQL_INLINE_TABLE_VALUED_FUNCTION'' \<or> t = ''SQL_TABLE_VALUED_FUNCTION''
        then TableValuedFunction
      else Table)"
| "mapObjectType Undefined = Table"
| "mapObjectType Null = Table"

text \<open>The warning of the \<^verbatim>\<open>default\<close> branch of \<^verbatim>\<open>mapObjectType\<close>.\<close>

definition knownObjectTypes :: "string list" where
  "knownObjectTypes =
     [''TABLE'', ''USER_TABLE'', ''VIEW'', ''SQL_STORED_PROCEDURE'', ''SQL_SCALAR_FUNCTION'',
      ''SQL_INLINE_TABLE_VALUED_FUNCTION'', ''SQL_TABLE_VALUED_FUNCTION'']"

definition mapObjectTypeWarning :: "cell \<Rightarrow> effect list" where
  "mapObjectTypeWarning t =
     (if (case t of Str s \<Rightarrow> s \<in> set knownObjectTypes | _ \<Rightarrow> False) then []
      else [LogWarn (''Unknown object type: '' @ template t @ '', defaulting to Table'')])"

definition transformResult :: "row \<Rightarrow> string option \<Rightarrow> DatabaseObjectItem" where
  "transformResult r db =
     \<lparr> name = orElse (r ''ObjectName'') [],
       schema = orElse (r ''SchemaName'') ''dbo'',
       type = mapObjectType (r ''ObjectType''),
       database = db,
       columns = None,
       definition' = None \<rparr>"

text \<open>
  \<^verbatim>\<open>getOrFetchObjects\<close>. A stored array is truthy even when it is empty, so the cache
  test is the presence of the key. The fetch is the call
  \<^verbatim>\<open>executeQueryWithDatabase(ALL_OBJECTS_QUERY, database)\<close>.
\<close>

definition getOrFetchObjects ::
  "connectionService \<Rightarrow> string \<Rightarrow> string option \<Rightarrow> world
     \<Rightarrow> (thrown + DatabaseObjectItem list) \<times> world" where
  "getOrFetchObjects cs cacheKey db w =
     (case objectsCache w cacheKey of
        Some cached \<Rightarrow> (Inr cached, w)
      | None \<Rightarrow>
          (let w1 = called (ExecuteQueryWithDatabase ALL_OBJECTS_QUERY db) w in
           case queryReply cs (calls w) ALL_OBJECTS_QUERY db of
             Inl e \<Rightarrow> (Inl e, w1)
           | Inr None \<Rightarrow> (Inr [], emit [LogWarn ''No objects returned from query''] w1)
           | Inr (Some results) \<Rightarrow>
               if results = [] then (Inr [], emit [LogWarn ''No objects returned from query''] w1)
               else
                 (let objects = map (\<lambda>r. transformResult r db) results;
                      w2 = emit (concat (map (\<lambda>r. mapObjectTypeWarning (r ''ObjectType'')) results)) w1
                  in (Inr objects, w2\<lparr>objectsCache := (objectsCache w2)(cacheKey \<mapsto> objects)\<rparr>))))"

section \<open>ColumnService: the column cache\<close>

definition isTableOrView :: "DatabaseObjectItem \<Rightarrow> bool" where
  "isTableOrView obj \<longleftrightarrow> type obj = Table \<or> type obj = View"

text \<open>The body of the \<^verbatim>\<open>objects.map\<close> callback of \<^verbatim>\<open>enrichWithColumns\<close>.\<close>

definition enrichOne :: "(string \<rightharpoonup> string) \<Rightarrow> DatabaseObjectItem \<Rightarrow> DatabaseObjectItem" where
  "enrichOne columnMap obj =
     (if isTableOrView obj then
        (case columnMap (schema obj @ ''.'' @ name obj) of
           Some cols \<Rightarrow> if cols \<noteq> [] then obj\<lparr>columns := Some cols\<rparr> else obj
         | None \<Rightarrow> obj)
      else obj)"

definition columnMapOf :: "row list \<Rightarrow> (string \<rightharpoonup> string)" where
  "columnMapOf results =
     foldl (\<lambda>m r. m(template (r ''SchemaName'') @ ''.'' @ template (r ''ObjectName'')
                       \<mapsto> orElse (r ''Columns'') []))
       Map.empty results"

definition fetchColumns ::
  "connectionService \<Rightarrow> world \<Rightarrow> (string \<rightharpoonup> string) option \<times> world" where
  "fetchColumns cs w =
     (let w1 = called (ExecuteQueryWithDatabase COLUMNS_QUERY None) w in
      case queryReply cs (calls w) COLUMNS_QUERY None of
        Inl e \<Rightarrow> (None, emit [LogError ''Failed to fetch column information''] w1)
      | Inr None \<Rightarrow> (None, emit [LogWarn ''No column information returned from query''] w1)
      | Inr (Some results) \<Rightarrow>
          if results = []
          then (None, emit [LogWarn ''No column information returned from query''] w1)
          else (Some (columnMapOf results), w1))"

definition enrichWithColumns ::
  "connectionService \<Rightarrow> string \<Rightarrow> DatabaseObjectItem list \<Rightarrow> world
     \<Rightarrow> DatabaseObjectItem list \<times> world" where
  "enrichWithColumns cs uri objects w =
     (if filter isTableOrView objects = [] then (objects, w)
      else
        (case columnCache w uri of
           Some columnMap \<Rightarrow> (map (enrichOne columnMap) objects, w)
         | None \<Rightarrow>
             (case fetchColumns cs w of
                (Some columnMap, w1) \<Rightarrow>
                  (map (enrichOne columnMap) objects,
                   w1\<lparr>columnCache := (columnCache w1)(uri \<mapsto> columnMap)\<rparr>)
              | (None, w1) \<Rightarrow> (objects, w1))))"

definition clearCache :: "string option \<Rightarrow> world \<Rightarrow> world" where
  "clearCache uri w =
     (case uri of
        Some u \<Rightarrow>
          if u \<noteq> [] then w\<lparr>columnCache := (columnCache w)(u := None)\<rparr>
          else w\<lparr>columnCache := Map.empty\<rparr>
      | None \<Rightarrow> w\<lparr>columnCache := Map.empty\<rparr>)"

section \<open>SearchService.search\<close>

text \<open>The \<^verbatim>\<open>filter\<close> callback of \<^verbatim>\<open>search\<close>, for the already lower-cased term.\<close>

definition matchesTerm :: "string \<Rightarrow> DatabaseObjectItem \<Rightarrow> bool" where
  "matchesTerm lowerTerm obj \<longleftrightarrow>
     includes' (toLowerCase (name obj)) lowerTerm \<or> includes' (toLowerCase (schema obj)) lowerTerm"

text \<open>
  The body of the \<^verbatim>\<open>try\<close> block of \<^verbatim>\<open>search\<close>. A throw leaves the changes made
  before it in place.
\<close>

definition searchBody ::
  "connectionService \<Rightarrow> SearchEverywhereConfiguration \<Rightarrow> string \<Rightarrow> bool \<Rightarrow> world
     \<Rightarrow> (thrown + DatabaseObjectItem list) \<times> world" where
  "searchBody cs config searchTerm clear w =
     (let w1 = called GetCurrentConnectionUri w in
      case uriReply cs (calls w) of
        Inl e \<Rightarrow> (Inl e, w1)
      | Inr None \<Rightarrow> (Inr [], emit handleNoConnection w1)
      | Inr (Some uri) \<Rightarrow>
          if uri = [] then (Inr [], emit handleNoConnection w1)
          else
            (let w2 = called GetActiveDatabase w1 in
             case databaseReply cs (calls w1) of
               Inl e \<Rightarrow> (Inl e, w2)
             | Inr db \<Rightarrow>
                 (let cacheKey = (case db of Some d \<Rightarrow> if d \<noteq> [] then d else ''default''
                                   | None \<Rightarrow> ''default'');
                      w3 = (if clear then clearCache (Some uri) (w2\<lparr>objectsCache := Map.empty\<rparr>)
                            else w2)
                  in case getOrFetchObjects cs cacheKey db w3 of
                       (Inl e, w4) \<Rightarrow> (Inl e, w4)
                     | (Inr objects, w4) \<Rightarrow>
                         (let filtered =
                                (if trim searchTerm \<noteq> []
                                 then filter (matchesTerm (toLowerCase searchTerm)) objects
                                 else objects)
                          in if includeTableColumns config
                             then (case enrichWithColumns cs uri filtered w4 of
                                     (enriched, w5) \<Rightarrow> (Inr enriched, w5))
                             else (Inr filtered, w4)))))"

text \<open>\<^verbatim>\<open>search\<close>: the \<^verbatim>\<open>try\<close> block and its \<^verbatim>\<open>catch\<close>.\<close>

definition search ::
  "connectionService \<Rightarrow> SearchEverywhereConfiguration \<Rightarrow> string \<Rightarrow> bool \<Rightarrow> world
     \<Rightarrow> (thrown + DatabaseObjectItem list) \<times> world" where
  "search cs config searchTerm clear w =
     (case searchBody cs config searchTerm clear w of
        (Inr objects, w') \<Rightarrow> (Inr objects, w')
      | (Inl error, w') \<Rightarrow> (Inr [], emit (handle error (Some ''Search failed'')) w'))"

section \<open>ScriptingService\<close>

definition getQualifiedName :: "DatabaseObjectItem \<Rightarrow> string" where
  "getQualifiedName obj = ''['' @ schema obj @ ''].['' @ name obj @ '']''"

subsection \<open>The regular expressions of ensureTopClause\<close>

text \<open>
  Matching with the \<^verbatim>\<open>i\<close> flag against a letter of the pattern: the letter itself or its
  other case.
\<close>

definition ciEq :: "char \<Rightarrow> char \<Rightarrow> bool" where
  "ciEq p c \<longleftrightarrow> toLowerChar c = toLowerChar p"

definition matchesKeyword :: "string \<Rightarrow> string \<Rightarrow> bool" where
  "matchesKeyword kw s \<longleftrightarrow> list_all2 ciEq kw s"

text \<open>
  The group \<^verbatim>\<open>(\(\s*\d+\s*\)|\d+)\<close> at the start of a string: the rest after the match.
  Each greedy quantifier is followed by a character outside its class, so taking the
  longest run is the only way to match.
\<close>

definition matchNumber :: "string \<Rightarrow> string option" where
  "matchNumber s =
     (case s of
        [] \<Rightarrow> None
      | c # cs \<Rightarrow>
          if c = CHR ''('' then
            (let r1 = dropWhile isSpace cs;
                 ds = takeWhile isDigit r1;
                 r2 = dropWhile isSpace (dropWhile isDigit r1)
             in case r2 of
                  [] \<Rightarrow> None
                | d # r3 \<Rightarrow> if ds \<noteq> [] \<and> d = CHR '')'' then Some r3 else None)
          else if isDigit c then Some (dropWhile isDigit cs)
          else None)"

text \<open>
  \<^verbatim>\<open>(SELECT\s+)TOP\s*(\(\s*\d+\s*\)|\d+)\<close> with the \<^verbatim>\<open>i\<close> flag, at the start of a
  string: the text of group 1 and the rest after the match.
\<close>

definition matchTopAt :: "string \<Rightarrow> (string \<times> string) option" where
  "matchTopAt s =
     (let kw = take 6 s;
          ws = takeWhile isSpace (drop 6 s);
          r1 = dropWhile isSpace (drop 6 s)
      in if matchesKeyword ''SELECT'' kw \<and> ws \<noteq> [] \<and> matchesKeyword ''TOP'' (take 3 r1)
         then (case matchNumber (dropWhile isSpace (drop 3 r1)) of
                 Some rest \<Rightarrow> Some (kw @ ws, rest)
               | None \<Rightarrow> None)
         else None)"

text \<open>\<^verbatim>\<open>regex.test(script)\<close>: a match at some start position, the leftmost first.\<close>

fun testTop :: "string \<Rightarrow> bool" where
  "testTop [] = False"
| "testTop (c # cs) = (matchTopAt (c # cs) \<noteq> None \<or> testTop cs)"

text \<open>
  \<^verbatim>\<open>script.replace(regex, `$1TOP ${rowLimit}`)\<close>: the leftmost match is replaced by
  group 1 followed by the new clause; without a match the script comes back as it is.
\<close>

fun replaceTop :: "string \<Rightarrow> string \<Rightarrow> string" where
  "replaceTop [] clause = []"
| "replaceTop (c # cs) clause =
     (case matchTopAt (c # cs) of
        Some (g1, rest) \<Rightarrow> g1 @ clause @ rest
      | None \<Rightarrow> c # replaceTop cs clause)"

text \<open>
  \<^verbatim>\<open>script.replace(/^(\s*SELECT\s+)/i, `$1TOP ${rowLimit} `)\<close>: the match is anchored at
  the start of the script.
\<close>

definition replaceLeadingSelect :: "string \<Rightarrow> string \<Rightarrow> string" where
  "replaceLeadingSelect s clause =
     (let ws0 = takeWhile isSpace s;
          r0 = dropWhile isSpace s;
          kw = take 6 r0;
          ws = takeWhile isSpace (drop 6 r0);
          rest = dropWhile isSpace (drop 6 r0)
      in if matchesKeyword ''SELECT'' kw \<and> ws \<noteq> [] then ws0 @ kw @ ws @ clause @ rest else s)"

definition ensureTopClause :: "string \<Rightarrow> int \<Rightarrow> string" where
  "ensureTopClause script rowLimit =
     (if testTop script then replaceTop script (''TOP '' @ showInt rowLimit)
      else replaceLeadingSelect script (''TOP '' @ showInt rowLimit @ '' ''))"

subsection \<open>The six strategies\<close>

text \<open>
  Each strategy calls \<^verbatim>\<open>connectionService.scriptObject\<close> inside a \<^verbatim>\<open>try\<close>; the three
  outcomes are a truthy script, \<^verbatim>\<open>undefined\<close> or the empty string, and a throw.
\<close>

definition lf :: string where
  "lf = [CHR 0x0A]"

definition generateSelectScript ::
  "connectionService \<Rightarrow> SearchEverywhereConfiguration \<Rightarrow> DatabaseObjectItem \<Rightarrow> world
     \<Rightarrow> string \<times> world" where
  "generateSelectScript cs config obj w =
     (let w1 = called (ScriptObject 0 (schema obj) (name obj) (type obj)) w;
          q = getQualifiedName obj;
          empty = (''-- Could not generate SELECT script for '' @ q @ lf
                     @ ''SELECT * FROM '' @ q @ '';'' @ lf,
                   emit [LogWarn (''scriptObject returned undefined for SELECT on '' @ q)] w1)
      in case scriptReply cs (calls w) 0 (schema obj) (name obj) (type obj) of
           Inr (Some script) \<Rightarrow>
             if script \<noteq> [] then (ensureTopClause script (scriptRowLimit config), w1) else empty
         | Inr None \<Rightarrow> empty
         | Inl error \<Rightarrow>
             (''SELECT TOP '' @ showInt (scriptRowLimit config) @ '' *'' @ lf
                @ ''FROM '' @ q @ '';'' @ lf,
              emit [LogError ''Failed to generate SELECT script via API''] w1))"

definition generateExecuteScript ::
  "connectionService \<Rightarrow> DatabaseObjectItem \<Rightarrow> world \<Rightarrow> string \<times> world" where
  "generateExecuteScript cs obj w =
     (let w1 = called (ScriptObject 5 (schema obj) (name obj) (type obj)) w;
          q = getQualifiedName obj;
          empty = (''EXEC '' @ q @ '';'' @ lf @ ''-- Specify parameters if required'' @ lf,
                   emit [LogWarn (''scriptObject returned undefined for EXECUTE on '' @ q)] w1)
      in case scriptReply cs (calls w) 5 (schema obj) (name obj) (type obj) of
           Inr (Some script) \<Rightarrow> if script \<noteq> [] then (script, w1) else empty
         | Inr None \<Rightarrow> empty
         | Inl error \<Rightarrow>
             (''EXEC '' @ q @ '';'' @ lf @ ''-- Specify parameters if required'' @ lf,
              emit [LogError ''Failed to generate EXECUTE script via API''] w1))"

definition generateCreateScript ::
  "connectionService \<Rightarrow> DatabaseObjectItem \<Rightarrow> world \<Rightarrow> string \<times> world" where
  "generateCreateScript cs obj w =
     (let w1 = called (ScriptObject 1 (schema obj) (name obj) (type obj)) w;
          q = getQualifiedName obj;
          empty = (''-- Could not generate CREATE script for '' @ q @ lf,
                   emit [LogWarn (''scriptObject returned undefined for CREATE on '' @ q)] w1)
      in case scriptReply cs (calls w) 1 (schema obj) (name obj) (type obj) of
           Inr (Some script) \<Rightarrow> if script \<noteq> [] then (script, w1) else empty
         | Inr None \<Rightarrow> empty
         | Inl error \<Rightarrow>
             (''-- Error generating CREATE script for '' @ q @ lf,
              emit [LogError ''Failed to generate CREATE script''] w1))"

definition generateDeleteScript ::
  "connectionService \<Rightarrow> DatabaseObjectItem \<Rightarrow> world \<Rightarrow> string \<times> world" where
  "generateDeleteScript cs obj w =
     (let w1 = called (ScriptObject 4 (schema obj) (name obj) (type obj)) w;
          q = getQualifiedName obj;
          empty = (''-- Could not generate DELETE script for '' @ q @ lf,
                   emit [LogWarn (''scriptObject returned undefined for DELETE on '' @ q)] w1)
      in case scriptReply cs (calls w) 4 (schema obj) (name obj) (type obj) of
           Inr (Some script) \<Rightarrow> if script \<noteq> [] then (script, w1) else empty
         | Inr None \<Rightarrow> empty
         | Inl error \<Rightarrow>
             (''DELETE FROM '' @ q @ lf @ ''WHERE'' @ lf @ ''  -- Specify condition;'' @ lf,
              emit [LogError ''Failed to generate DELETE script''] w1))"

definition generateAlterScriptViaApi ::
  "connectionService \<Rightarrow> DatabaseObjectItem \<Rightarrow> world \<Rightarrow> string \<times> world" where
  "generateAlterScriptViaApi cs obj w =
     (let w1 = called (ScriptObject 6 (schema obj) (name obj) (type obj)) w;
          q = getQualifiedName obj;
          empty = (''-- Could not generate ALTER script for '' @ q @ lf,
                   emit [LogWarn (''scriptObject returned undefined for ALTER on '' @ q)] w1)
      in case scriptReply cs (calls w) 6 (schema obj) (name obj) (type obj) of
           Inr (Some script) \<Rightarrow> if script \<noteq> [] then (script, w1) else empty
         | Inr None \<Rightarrow> empty
         | Inl error \<Rightarrow>
             (''-- Could not generate ALTER script for '' @ q @ lf,
              emit [LogError ''Failed to generate ALTER script via API''] w1))"

definition generateScript ::
  "connectionService \<Rightarrow> SearchEverywhereConfiguration \<Rightarrow> DatabaseObjectItem \<Rightarrow> world
     \<Rightarrow> string \<times> world" where
  "generateScript cs config obj w =
     (case getActionForType config (type obj) of
        Select \<Rightarrow> generateSelectScript cs config obj w
      | Create \<Rightarrow> generateCreateScript cs obj w
      | Delete \<Rightarrow> generateDeleteScript cs obj w
      | Execute \<Rightarrow> generateExecuteScript cs obj w
      | Alter \<Rightarrow> generateAlterScriptViaApi cs obj w
      | InsertName \<Rightarrow> (getQualifiedName obj, w))"

section \<open>ConnectionService\<close>

text \<open>
  The interface of the mssql extension is the collaborator here. \<open>connectionSharing\<close>
  tells whether \<^verbatim>\<open>this.mssqlApi?.connectionSharing\<close> is there; each call answers from
  the calls made so far and may throw.
\<close>

record IConnectionInfo =
  server :: string
  infoDatabase :: "string option"
  user :: "string option"
  password :: "string option"
  authenticationType :: "string option"
  encrypt :: "(string + bool) option"
  trustServerCertificate :: "bool option"
  connectionString :: "string option"
  port :: "int option"
  others :: "(string \<times> string) list"

datatype apiCall =
    ApiGetActiveEditorConnectionId
  | ApiGetActiveDatabase
  | ApiConnect string
  | ApiGetConnectionString string
  | ApiLegacyConnect IConnectionInfo
  | ApiScriptObject string nat string string string

record mssqlApi =
  connectionSharing :: bool
  activeEditorConnectionIdReply :: "apiCall list \<Rightarrow> thrown + string option"
  activeDatabaseReply :: "apiCall list \<Rightarrow> thrown + string option"
  connectReply :: "apiCall list \<Rightarrow> string \<Rightarrow> thrown + string option"
  connectionStringReply :: "apiCall list \<Rightarrow> string \<Rightarrow> thrown + string"
  legacyConnectReply :: "apiCall list \<Rightarrow> IConnectionInfo \<Rightarrow> thrown + string"
  scriptObjectReply ::
    "apiCall list \<Rightarrow> string \<Rightarrow> nat \<Rightarrow> string \<times> string \<times> string \<Rightarrow> thrown + string option"

text \<open>
  The fields of the service, the calls made to the interface, and the lines written with
  \<^verbatim>\<open>Logger.warn\<close> and \<^verbatim>\<open>Logger.error\<close>.
\<close>

record connectionState =
  cachedConnectionUri :: "string option"
  cachedConnectionId :: "string option"
  cachedDatabase :: "string option"
  scriptingUriCache :: "string \<rightharpoonup> string"
  apiCalls :: "apiCall list"
  errorLog :: "effect list"

definition clearConnectionCache :: "connectionState \<Rightarrow> connectionState" where
  "clearConnectionCache s =
     s\<lparr>cachedConnectionUri := None, cachedConnectionId := None, cachedDatabase := None,
       scriptingUriCache := Map.empty\<rparr>"

definition apiCalled :: "apiCall \<Rightarrow> connectionState \<Rightarrow> connectionState" where
  "apiCalled c s = s\<lparr>apiCalls := apiCalls s @ [c]\<rparr>"

definition logged :: "effect list \<Rightarrow> connectionState \<Rightarrow> connectionState" where
  "logged es s = s\<lparr>errorLog := errorLog s @ es\<rparr>"

subsection \<open>getCurrentConnectionUri\<close>

text \<open>The \<^verbatim>\<open>catch\<close> block of \<^verbatim>\<open>getCurrentConnectionUri\<close>.\<close>

definition uriFailed :: "connectionState \<Rightarrow> string option \<times> connectionState" where
  "uriFailed s =
     (None, clearConnectionCache (s\<lparr>errorLog := errorLog s @ [LogError ''Could not get connection URI'']\<rparr>))"

definition getCurrentConnectionUri ::
  "mssqlApi \<Rightarrow> connectionState \<Rightarrow> string option \<times> connectionState" where
  "getCurrentConnectionUri api s =
     (if \<not> connectionSharing api then (None, s)
      else
        (let s1 = apiCalled ApiGetActiveEditorConnectionId s in
         case activeEditorConnectionIdReply api (apiCalls s) of
           Inl error \<Rightarrow> uriFailed s1
         | Inr connectionId \<Rightarrow>
             (case connectionId of
                None \<Rightarrow> (None, clearConnectionCache s1)
              | Some cid \<Rightarrow>
                  if cid = [] then (None, clearConnectionCache s1)
                  else
                    (let s2 = apiCalled ApiGetActiveDatabase s1 in
                     case activeDatabaseReply api (apiCalls s1) of
                       Inl error \<Rightarrow> uriFailed s2
                     | Inr activeDatabase \<Rightarrow>
                         if truthy (cachedConnectionUri s2)
                            \<and> cachedConnectionId s2 = Some cid
                            \<and> cachedDatabase s2 = activeDatabase
                         then (cachedConnectionUri s2, s2)
                         else
                           (let s3 = apiCalled (ApiConnect cid) s2 in
                            case connectReply api (apiCalls s2) cid of
                              Inl error \<Rightarrow> uriFailed s3
                            | Inr uri \<Rightarrow>
                                if truthy uri
                                then (uri, s3\<lparr>cachedConnectionUri := uri,
                                               cachedConnectionId := Some cid,
                                               cachedDatabase := activeDatabase\<rparr>)
                                else (uri, s3))))))"

text \<open>The number of calls to \<^verbatim>\<open>connectionSharing.connect\<close> in a list of calls.\<close>

fun isConnect :: "apiCall \<Rightarrow> bool" where
  "isConnect (ApiConnect c) = True"
| "isConnect ApiGetActiveEditorConnectionId = False"
| "isConnect ApiGetActiveDatabase = False"
| "isConnect (ApiGetConnectionString u) = False"
| "isConnect (ApiLegacyConnect i) = False"
| "isConnect (ApiScriptObject u operation t s n) = False"

definition connectCount :: "apiCall list \<Rightarrow> nat" where
  "connectCount cs = length (filter isConnect cs)"

subsection \<open>getActiveDatabase, getScriptingUri and scriptObject\<close>

definition getActiveDatabase ::
  "mssqlApi \<Rightarrow> connectionState \<Rightarrow> string option \<times> connectionState" where
  "getActiveDatabase api s =
     (if \<not> connectionSharing api then (None, s)
      else
        (let s1 = apiCalled ApiGetActiveDatabase s in
         case activeDatabaseReply api (apiCalls s) of
           Inl error \<Rightarrow> (None, logged [LogError ''Could not get active database''] s1)
         | Inr db \<Rightarrow> (db, s1)))"

text \<open>
  \<^verbatim>\<open>getScriptingUri\<close> has no \<^verbatim>\<open>try\<close> of its own: a throw of a call it makes leaves
  it as a throw. \<^verbatim>\<open>parseConnectionString\<close> is a parameter \<open>parse\<close>, a function
  that returns the connection information or throws; its result is only handed to
  \<^verbatim>\<open>mssqlApi.connect\<close>, after the database has been set, and everything proved below
  holds for every such function. When the base URI is truthy the interface is there
  (\<open>getCurrentConnectionUri\<close> returns \<^verbatim>\<open>undefined\<close> without it), so the test
  \<^verbatim>\<open>!this.mssqlApi\<close> adds nothing to \<^verbatim>\<open>!baseUri\<close>.
\<close>

definition getScriptingUri ::
  "(string \<Rightarrow> thrown + IConnectionInfo) \<Rightarrow> mssqlApi \<Rightarrow> string \<Rightarrow> connectionState
     \<Rightarrow> (thrown + string option) \<times> connectionState" where
  "getScriptingUri parse api db s =
     (case scriptingUriCache s db of
        Some cached \<Rightarrow> (Inr (Some cached), s)
      | None \<Rightarrow>
          (case getCurrentConnectionUri api s of
             (baseUri, s1) \<Rightarrow>
               if \<not> truthy baseUri then (Inr None, s1)
               else
                 (let base = (case baseUri of Some b \<Rightarrow> b | None \<Rightarrow> []);
                      s2 = apiCalled (ApiGetConnectionString base) s1
                  in case connectionStringReply api (apiCalls s1) base of
                       Inl error \<Rightarrow> (Inl error, s2)
                     | Inr cstr \<Rightarrow>
                         (case parse cstr of
                            Inl error \<Rightarrow> (Inl error, s2)
                          | Inr parsed \<Rightarrow>
                              (let connInfo = parsed\<lparr>infoDatabase := Some db\<rparr>;
                                   s3 = apiCalled (ApiLegacyConnect connInfo) s2
                               in case legacyConnectReply api (apiCalls s2) connInfo of
                                    Inl error \<Rightarrow> (Inl error, s3)
                                  | Inr uri \<Rightarrow>
                                      (Inr (Some uri),
                                       s3\<lparr>scriptingUriCache :=
                                            (scriptingUriCache s3)(db \<mapsto> uri)\<rparr>))))))"

fun mapObjectTypeForScripting :: "DatabaseObjectType \<Rightarrow> string" where
  "mapObjectTypeForScripting Table = ''Table''"
| "mapObjectTypeForScripting View = ''View''"
| "mapObjectTypeForScripting StoredProcedure = ''StoredProcedure''"
| "mapObjectTypeForScripting ScalarValuedFunction = ''UserDefinedFunction''"
| "mapObjectTypeForScripting TableValuedFunction = ''UserDefinedFunction''"
| "mapObjectTypeForScripting Synonym = ''Synonym''"

text \<open>The body of the \<^verbatim>\<open>try\<close> block of \<^verbatim>\<open>scriptObject\<close>.\<close>

definition scriptObjectBody ::
  "(string \<Rightarrow> thrown + IConnectionInfo) \<Rightarrow> mssqlApi \<Rightarrow> nat \<Rightarrow> string \<Rightarrow> string
     \<Rightarrow> DatabaseObjectType \<Rightarrow> connectionState \<Rightarrow> (thrown + string option) \<times> connectionState" where
  "scriptObjectBody parse api operation sch nm t s =
     (case getActiveDatabase api s of
        (activeDb, s1) \<Rightarrow>
          (case (case activeDb of
                   Some d \<Rightarrow>
                     if d \<noteq> [] then getScriptingUri parse api d s1
                     else (Inr (fst (getCurrentConnectionUri api s1)),
                           snd (getCurrentConnectionUri api s1))
                 | None \<Rightarrow> (Inr (fst (getCurrentConnectionUri api s1)),
                            snd (getCurrentConnectionUri api s1))) of
             (Inl error, s2) \<Rightarrow> (Inl error, s2)
           | (Inr uri, s2) \<Rightarrow>
               if \<not> truthy uri
               then (Inr None, logged [LogError ''No scripting connection available''] s2)
               else if \<not> connectionSharing api
               then (Inr None, logged [LogError ''Connection sharing service not available''] s2)
               else
                 (let u = (case uri of Some v \<Rightarrow> v | None \<Rightarrow> []);
                      s3 = apiCalled (ApiScriptObject u operation (mapObjectTypeForScripting t)
                                        sch nm) s2
                  in case scriptObjectReply api (apiCalls s2) u operation
                            (mapObjectTypeForScripting t, sch, nm) of
                       Inl error \<Rightarrow> (Inl error, s3)
                     | Inr script \<Rightarrow>
                         (Inr script,
                          if truthy script then s3
                          else logged [LogWarn (''scriptObject UNDEFINED: '' @ sch @ ''.'' @ nm
                                          @ '' op='' @ showNat operation)] s3))))"

text \<open>
  \<^verbatim>\<open>scriptObject\<close>: the \<^verbatim>\<open>try\<close> block and its \<^verbatim>\<open>catch\<close>, which logs and returns
  \<^verbatim>\<open>undefined\<close>. The method returns a value on every path.
\<close>

definition scriptObject ::
  "(string \<Rightarrow> thrown + IConnectionInfo) \<Rightarrow> mssqlApi \<Rightarrow> nat \<Rightarrow> string \<Rightarrow> string
     \<Rightarrow> DatabaseObjectType \<Rightarrow> connectionState \<Rightarrow> string option \<times> connectionState" where
  "scriptObject parse api operation sch nm t s =
     (case scriptObjectBody parse api operation sch nm t s of
        (Inr script, s') \<Rightarrow> (script, s')
      | (Inl error, s') \<Rightarrow>
          (None, logged [LogError (''scriptObject ERROR: '' @ sch @ ''.'' @ nm
                           @ '' op='' @ showNat operation)] s'))"

subsection \<open>ScriptingService over the repository's ConnectionService\<close>

text \<open>
  \<^verbatim>\<open>extension.ts\<close> gives \<^verbatim>\<open>ScriptingService\<close> the repository's own
  \<^verbatim>\<open>ConnectionService\<close>. For one call of \<open>generateScript\<close>, which calls
  \<open>scriptObject\<close> at most once, that service in the state \<open>s\<close> over the interface
  \<open>api\<close> answers with what \<open>scriptObject\<close> returns there, and never throws. The other
  methods, which \<^verbatim>\<open>ScriptingService\<close> does not call, are taken from \<open>cs\<close>.
\<close>

definition wired ::
  "(string \<Rightarrow> thrown + IConnectionInfo) \<Rightarrow> mssqlApi \<Rightarrow> connectionState \<Rightarrow> connectionService
     \<Rightarrow> connectionService" where
  "wired parse api s cs =
     cs\<lparr>scriptReply := (\<lambda>h operation sch nm t. Inr (fst (scriptObject parse api operation sch nm t s)))\<rparr>"

section \<open>Notions used to state the properties\<close>

text \<open>
  These definitions follow the words of the specification, not the code. A text
  contains a search term case-insensitively when some stretch of it equals the term up
  to the case of the letters.
\<close>

definition containsIgnoringCase :: "string \<Rightarrow> string \<Rightarrow> bool" where
  "containsIgnoringCase text needle \<longleftrightarrow>
     (\<exists>pre mid post. text = pre @ mid @ post \<and> toLowerCase mid = toLowerCase needle)"

text \<open>The identity of a database object: database, schema, name and type.\<close>

definition identity ::
  "DatabaseObjectItem \<Rightarrow> string option \<times> string \<times> string \<times> DatabaseObjectType" where
  "identity obj = (database obj, schema obj, name obj, type obj)"

definition allSpaces :: "string \<Rightarrow> bool" where
  "allSpaces s \<longleftrightarrow> (\<forall>c \<in> set s. isSpace c)"

text \<open>
  The numeric part \<open>num\<close> of a TOP clause, followed by \<open>post\<close>: a bare number, which
  ends where the digits end, or a number in parentheses with optional spaces around it.
\<close>

definition topNumber :: "string \<Rightarrow> string \<Rightarrow> bool" where
  "topNumber num post \<longleftrightarrow>
     (\<exists>ds. ds \<noteq> [] \<and> (\<forall>c \<in> set ds. isDigit c)
        \<and> ((num = ds \<and> (post = [] \<or> \<not> isDigit (hd post)))
           \<or> (\<exists>a b. allSpaces a \<and> allSpaces b \<and> num = ''('' @ a @ ds @ b @ '')'')))"

text \<open>
  A text begins with a TOP clause that follows its SELECT directly: the keyword SELECT
  in any case, at least one blank, the keyword TOP, optional blanks and a number. A text
  holds such a clause when some tail of it begins with one.
\<close>

definition topClauseAt :: "string \<Rightarrow> bool" where
  "topClauseAt s \<longleftrightarrow>
     (\<exists>kw ws tp ws2 num post.
        s = kw @ ws @ tp @ ws2 @ num @ post \<and> matchesKeyword ''SELECT'' kw \<and> ws \<noteq> []
        \<and> allSpaces ws \<and> matchesKeyword ''TOP'' tp \<and> allSpaces ws2 \<and> topNumber num post)"

definition hasTopClause :: "string \<Rightarrow> bool" where
  "hasTopClause s \<longleftrightarrow> (\<exists>pre r. s = pre @ r \<and> topClauseAt r)"

text \<open>A text begins, after optional blanks, with SELECT and at least one blank.\<close>

definition startsWithSelect :: "string \<Rightarrow> bool" where
  "startsWithSelect s \<longleftrightarrow>
     (\<exists>ws0 kw ws rest. s = ws0 @ kw @ ws @ rest \<and> allSpaces ws0
        \<and> matchesKeyword ''SELECT'' kw \<and> ws \<noteq> [] \<and> allSpaces ws)"

section \<open>Example inputs\<close>

definition emptyWorld :: world where
  "emptyWorld = \<lparr> objectsCache = Map.empty, columnCache = Map.empty, calls = [], effects = [] \<rparr>"

text \<open>A connection service that gives the same answers at every call.\<close>

definition constantService ::
  "(thrown + string option) \<Rightarrow> (thrown + string option) \<Rightarrow> (query \<Rightarrow> thrown + row list option)
     \<Rightarrow> (thrown + string option) \<Rightarrow> connectionService" where
  "constantService uri db rows script =
     \<lparr> uriReply = (\<lambda>h. uri), databaseReply = (\<lambda>h. db),
       queryReply = (\<lambda>h q d. rows q), scriptReply = (\<lambda>h operation s n t. script) \<rparr>"

definition mkRow :: "string \<Rightarrow> string \<Rightarrow> string \<Rightarrow> row" where
  "mkRow s n t =
     (\<lambda>k. if k = ''SchemaName'' then Str s
          else if k = ''ObjectName'' then Str n
          else if k = ''ObjectType'' then Str t
          else Undefined)"

definition mkObject :: "string \<Rightarrow> string \<Rightarrow> DatabaseObjectType \<Rightarrow> string option \<Rightarrow> DatabaseObjectItem" where
  "mkObject s n t db =
     \<lparr> name = n, schema = s, type = t, database = db, columns = None, definition' = None \<rparr>"

definition exampleCatalog :: "row list" where
  "exampleCatalog =
     [mkRow ''dbo'' ''Customers'' ''USER_TABLE'', mkRow ''dbo'' ''Orders'' ''USER_TABLE'',
      mkRow ''sales'' ''CustomerNotes'' ''VIEW'']"

definition defaultConfiguration :: SearchEverywhereConfiguration where
  "defaultConfiguration =
     \<lparr> includeTableColumns = False, tableAction = Select, viewAction = Select,
       storedProcedureAction = Alter, functionAction = Alter, scriptRowLimit = 1000 \<rparr>"

definition emptyCatalogService :: connectionService where
  "emptyCatalogService =
     constantService (Inr (Some ''conn-1'')) (Inr (Some ''Sales'')) (\<lambda>q. Inr (Some [])) (Inr None)"

definition catalogService :: connectionService where
  "catalogService =
     constantService (Inr (Some ''conn-1'')) (Inr (Some ''Sales''))
       (\<lambda>q. if q = ALL_OBJECTS_QUERY then Inr (Some exampleCatalog) else Inr (Some []))
       (Inr None)"

definition noConnectionService :: connectionService where
  "noConnectionService =
     constantService (Inr None) (Inr None) (\<lambda>q. Inr (Some [])) (Inr None)"

text \<open>
  A service with a session whose queries throw. Its \<open>scriptObject\<close> returns
  \<^verbatim>\<open>undefined\<close>, as the repository's does on every failure.
\<close>

definition failingService :: connectionService where
  "failingService =
     constantService (Inr (Some ''conn-1'')) (Inr (Some ''Sales''))
       (\<lambda>q. Inl (ThrownError ''timeout'')) (Inr None)"

definition ordersTable :: DatabaseObjectItem where
  "ordersTable = mkObject ''dbo'' ''Orders'' Table (Some ''Sales'')"

definition insertNameConfiguration :: SearchEverywhereConfiguration where
  "insertNameConfiguration = defaultConfiguration\<lparr>tableAction := InsertName\<rparr>"

definition createConfiguration :: SearchEverywhereConfiguration where
  "createConfiguration = defaultConfiguration\<lparr>tableAction := Create\<rparr>"


definition emptyConnectionState :: connectionState where
  "emptyConnectionState =
     \<lparr> cachedConnectionUri = None, cachedConnectionId = None, cachedDatabase = None,
       scriptingUriCache = Map.empty, apiCalls = [], errorLog = [] \<rparr>"

text \<open>A connection-sharing interface that gives the same answers at every call.\<close>

definition constantApi ::
  "(thrown + string option) \<Rightarrow> (thrown + string option) \<Rightarrow> (string \<Rightarrow> thrown + string option)
     \<Rightarrow> mssqlApi" where
  "constantApi cid db conn =
     \<lparr> connectionSharing = True, activeEditorConnectionIdReply = (\<lambda>h. cid),
       activeDatabaseReply = (\<lambda>h. db), connectReply = (\<lambda>h c. conn c),
       connectionStringReply = (\<lambda>h u. Inr ''Server=localhost''),
       legacyConnectReply = (\<lambda>h i. Inr ''scripting-uri''),
       scriptObjectReply = (\<lambda>h u operation so. Inr None) \<rparr>"

definition workingApi :: mssqlApi where
  "workingApi =
     constantApi (Inr (Some ''editor-1'')) (Inr (Some ''Sales'')) (\<lambda>c. Inr (Some (''uri-'' @ c)))"

definition otherDatabaseApi :: mssqlApi where
  "otherDatabaseApi =
     constantApi (Inr (Some ''editor-1'')) (Inr (Some ''Archive'')) (\<lambda>c. Inr (Some ''uri-2''))"

definition deleteConfiguration :: SearchEverywhereConfiguration where
  "deleteConfiguration = defaultConfiguration\<lparr>tableAction := Delete\<rparr>"

definition executeConfiguration :: SearchEverywhereConfiguration where
  "executeConfiguration = defaultConfiguration\<lparr>tableAction := Execute\<rparr>"

definition alterConfiguration :: SearchEverywhereConfiguration where
  "alterConfiguration = defaultConfiguration\<lparr>tableAction := Alter\<rparr>"

definition exampleParse :: "string \<Rightarrow> thrown + IConnectionInfo" where
  "exampleParse cstr =
     Inr \<lparr> server = ''localhost'', infoDatabase = Some [], user = Some [], password = Some [],
           authenticationType = Some ''SqlLogin'', encrypt = Some (Inr True),
           trustServerCertificate = Some False, connectionString = Some cstr, port = None,
           others = [] \<rparr>"

definition throwingScriptApi :: mssqlApi where
  "throwingScriptApi =
     workingApi\<lparr>scriptObjectReply := (\<lambda>h u operation so. Inl (ThrownError ''timeout''))\<rparr>"

definition refusingApi :: mssqlApi where
  "refusingApi = constantApi (Inr (Some ''editor-1'')) (Inr (Some ''Sales'')) (\<lambda>c. Inr None)"

definition refusingOtherDatabaseApi :: mssqlApi where
  "refusingOtherDatabaseApi =
     constantApi (Inr (Some ''editor-1'')) (Inr (Some ''Archive'')) (\<lambda>c. Inr None)"

definition throwingConnectApi :: mssqlApi where
  "throwingConnectApi =
     constantApi (Inr (Some ''editor-1'')) (Inr (Some ''Archive''))
       (\<lambda>c. Inl (ThrownError ''refused''))"

section \<open>Row transformation\<close>

text \<open>
  Claim C10. Every raw catalog row is transformed, whatever it holds: a SchemaName that
  is missing, null or empty gives the schema \<open>dbo\<close>, a missing or null ObjectName gives
  the empty name, a present value is kept, and the columns and definition of the new
  object are absent. \<open>transformResult\<close> is a total function, so no row makes it fail.
\<close>

theorem transformResult_defaults:
  "(r ''SchemaName'' \<in> {Undefined, Null, Str []} \<longrightarrow> schema (transformResult r db) = ''dbo'')
   \<and> (r ''ObjectName'' \<in> {Undefined, Null} \<longrightarrow> name (transformResult r db) = [])
   \<and> (\<forall>s. r ''SchemaName'' = Str s \<and> s \<noteq> [] \<longrightarrow> schema (transformResult r db) = s)
   \<and> (\<forall>n. r ''ObjectName'' = Str n \<longrightarrow> name (transformResult r db) = n)
   \<and> columns (transformResult r db) = None
   \<and> definition' (transformResult r db) = None
   \<and> database (transformResult r db) = db"
  by (auto simp: transformResult_def)

theorem transformResult_defaults_witness:
  "(\<lambda>k. if k = ''ObjectType'' then Str ''VIEW'' else Undefined) ''SchemaName''
       \<in> {Undefined, Null, Str []}
   \<and> (\<lambda>k. if k = ''ObjectType'' then Str ''VIEW'' else Undefined) ''ObjectName''
       \<in> {Undefined, Null}
   \<and> mkRow ''sales'' ''Notes'' ''VIEW'' ''SchemaName'' = Str ''sales''
   \<and> schema (transformResult (\<lambda>k. if k = ''ObjectType'' then Str ''VIEW'' else Undefined) None)
       = ''dbo''
   \<and> name (transformResult (\<lambda>k. if k = ''ObjectType'' then Str ''VIEW'' else Undefined) None) = []
   \<and> schema (transformResult (mkRow ''sales'' ''Notes'' ''VIEW'') None) = ''sales''
   \<and> name (transformResult (mkRow ''sales'' ''Notes'' ''VIEW'') None) = ''Notes''"
  using transformResult_defaults [of "\<lambda>k. if k = ''ObjectType'' then Str ''VIEW'' else Undefined" None]
    transformResult_defaults [of "mkRow ''sales'' ''Notes'' ''VIEW''" None]
  by (simp add: mkRow_def)

section \<open>Script generation\<close>

text \<open>
  Claim C9. When the action configured for the object's type is Insert Name,
  \<open>generateScript\<close> returns exactly \<open>[schema].[name]\<close> and leaves the world as it was:
  the list of calls made to the connection service does not grow, so the scripting
  collaborator is not invoked at all.
\<close>

theorem insertName_makes_no_backend_call:
  "getActionForType config (type obj) = InsertName \<Longrightarrow>
   generateScript cs config obj w = (''['' @ schema obj @ ''].['' @ name obj @ '']'', w)"
  by (simp add: generateScript_def getQualifiedName_def)

theorem insertName_makes_no_backend_call_witness:
  "getActionForType insertNameConfiguration (type ordersTable) = InsertName
   \<and> generateScript failingService insertNameConfiguration ordersTable emptyWorld
       = (''[dbo].[Orders]'', emptyWorld)"
proof -
  have a: "getActionForType insertNameConfiguration (type ordersTable) = InsertName"
    by (simp add: insertNameConfiguration_def defaultConfiguration_def ordersTable_def mkObject_def)
  show ?thesis
    using a insertName_makes_no_backend_call [OF a, of failingService emptyWorld]
    by (simp add: ordersTable_def mkObject_def)
qed

section \<open>The catalog cache\<close>

text \<open>
  Claim C1, as the code has it. When the key is not cached and the bulk catalog fetch
  returns an empty (or undefined) result, \<open>getOrFetchObjects\<close> returns the empty sequence
  and stores nothing: the cache is as before, one fetch has been made, and the next call
  for the same key, whatever the service answers then, makes the fetch again.
\<close>

theorem empty_fetch_is_not_cached:
  "objectsCache w key = None \<Longrightarrow>
   queryReply cs (calls w) ALL_OBJECTS_QUERY db = Inr None
     \<or> queryReply cs (calls w) ALL_OBJECTS_QUERY db = Inr (Some []) \<Longrightarrow>
   fst (getOrFetchObjects cs key db w) = Inr []
   \<and> objectsCache (snd (getOrFetchObjects cs key db w)) = objectsCache w
   \<and> calls (snd (getOrFetchObjects cs key db w))
       = calls w @ [ExecuteQueryWithDatabase ALL_OBJECTS_QUERY db]
   \<and> calls (snd (getOrFetchObjects cs' key db (snd (getOrFetchObjects cs key db w))))
       = calls w @ [ExecuteQueryWithDatabase ALL_OBJECTS_QUERY db,
                    ExecuteQueryWithDatabase ALL_OBJECTS_QUERY db]"
proof -
  assume miss: "objectsCache w key = None"
    and empty: "queryReply cs (calls w) ALL_OBJECTS_QUERY db = Inr None
                \<or> queryReply cs (calls w) ALL_OBJECTS_QUERY db = Inr (Some [])"
  define w' where "w' = snd (getOrFetchObjects cs key db w)"
  from miss empty have first:
    "getOrFetchObjects cs key db w
       = (Inr [], emit [LogWarn ''No objects returned from query'']
                    (called (ExecuteQueryWithDatabase ALL_OBJECTS_QUERY db) w))"
    by (auto simp: getOrFetchObjects_def)
  have r: "fst (getOrFetchObjects cs key db w) = Inr []" by (simp add: first)
  have c: "objectsCache w' = objectsCache w" by (simp add: w'_def first called_def emit_def)
  have l: "calls w' = calls w @ [ExecuteQueryWithDatabase ALL_OBJECTS_QUERY db]"
    by (simp add: w'_def first called_def emit_def)
  from c miss have "objectsCache w' key = None" by simp
  then have "calls (snd (getOrFetchObjects cs' key db w'))
               = calls w' @ [ExecuteQueryWithDatabase ALL_OBJECTS_QUERY db]"
    by (auto simp: getOrFetchObjects_def called_def emit_def Let_def split: sum.splits option.splits)
  with l have "calls (snd (getOrFetchObjects cs' key db w'))
           = calls w @ [ExecuteQueryWithDatabase ALL_OBJECTS_QUERY db,
                        ExecuteQueryWithDatabase ALL_OBJECTS_QUERY db]" by simp
  with r c l show ?thesis unfolding w'_def by simp
qed

theorem empty_fetch_is_not_cached_witness:
  "objectsCache emptyWorld ''Sales'' = None
   \<and> queryReply emptyCatalogService (calls emptyWorld) ALL_OBJECTS_QUERY (Some ''Sales'')
       = Inr (Some [])
   \<and> fst (getOrFetchObjects emptyCatalogService ''Sales'' (Some ''Sales'') emptyWorld) = Inr []
   \<and> calls (snd (getOrFetchObjects catalogService ''Sales'' (Some ''Sales'')
              (snd (getOrFetchObjects emptyCatalogService ''Sales'' (Some ''Sales'') emptyWorld))))
       = [ExecuteQueryWithDatabase ALL_OBJECTS_QUERY (Some ''Sales''),
          ExecuteQueryWithDatabase ALL_OBJECTS_QUERY (Some ''Sales'')]"
proof -
  have m: "objectsCache emptyWorld ''Sales'' = None" by (simp add: emptyWorld_def)
  have e: "queryReply emptyCatalogService (calls emptyWorld) ALL_OBJECTS_QUERY (Some ''Sales'')
             = Inr (Some [])"
    by (simp add: emptyCatalogService_def constantService_def)
  have c: "calls emptyWorld = []" by (simp add: emptyWorld_def)
  show ?thesis
    using m e c empty_fetch_is_not_cached [OF m disjI2 [OF e], of catalogService]
    by simp
qed

text \<open>
  The claim as the specification states it fails: with a service whose catalog query
  returns no rows, two calls for the key \<open>Sales\<close> make two fetches and the key is still
  not in the cache after the first.
\<close>

theorem empty_fetch_cached_counterexample:
  "calls (snd (getOrFetchObjects emptyCatalogService ''Sales'' (Some ''Sales'')
            (snd (getOrFetchObjects emptyCatalogService ''Sales'' (Some ''Sales'') emptyWorld))))
     = [ExecuteQueryWithDatabase ALL_OBJECTS_QUERY (Some ''Sales''),
        ExecuteQueryWithDatabase ALL_OBJECTS_QUERY (Some ''Sales'')]
   \<and> objectsCache (snd (getOrFetchObjects emptyCatalogService ''Sales'' (Some ''Sales'') emptyWorld))
        ''Sales'' = None"
  by (simp add: getOrFetchObjects_def emptyCatalogService_def constantService_def emptyWorld_def
        called_def emit_def)







section \<open>The column cache\<close>

lemma fetchColumns_failure:
  "(\<exists>e. queryReply cs (calls w) COLUMNS_QUERY None = Inl e)
     \<or> queryReply cs (calls w) COLUMNS_QUERY None = Inr None
     \<or> queryReply cs (calls w) COLUMNS_QUERY None = Inr (Some []) \<Longrightarrow>
   fst (fetchColumns cs w) = None"
  by (auto simp: fetchColumns_def Let_def)

lemma fetchColumns_frame:
  "columnCache (snd (fetchColumns cs w)) = columnCache w
   \<and> objectsCache (snd (fetchColumns cs w)) = objectsCache w
   \<and> calls (snd (fetchColumns cs w)) = calls w @ [ExecuteQueryWithDatabase COLUMNS_QUERY None]"
  by (auto simp: fetchColumns_def Let_def called_def emit_def split: sum.splits option.splits)

lemma enrich_miss_calls:
  "filter isTableOrView objects \<noteq> [] \<Longrightarrow> columnCache w uri = None \<Longrightarrow>
   calls (snd (enrichWithColumns cs uri objects w))
     = calls w @ [ExecuteQueryWithDatabase COLUMNS_QUERY None]"
  using fetchColumns_frame [of cs w]
  by (cases "fetchColumns cs w") (auto simp: enrichWithColumns_def split: option.splits)

text \<open>
  Claim C8. The objects hold at least one table or view and the session has no column map
  yet, so the bulk column fetch is made. When it throws, or returns an undefined or empty
  result, \<open>enrichWithColumns\<close> returns the objects as they came and the column cache is
  as before: nothing is stored for the session. The next enrichment for the same session
  (again with a table or view among the objects) makes the fetch again.
\<close>

theorem failed_column_fetch_is_retried:
  assumes tv: "filter isTableOrView objects \<noteq> []"
    and miss: "columnCache w uri = None"
    and failure: "(\<exists>e. queryReply cs (calls w) COLUMNS_QUERY None = Inl e)
       \<or> queryReply cs (calls w) COLUMNS_QUERY None = Inr None
       \<or> queryReply cs (calls w) COLUMNS_QUERY None = Inr (Some [])"
    and tv': "filter isTableOrView objects' \<noteq> []"
  shows "fst (enrichWithColumns cs uri objects w) = objects
    \<and> columnCache (snd (enrichWithColumns cs uri objects w)) = columnCache w
    \<and> calls (snd (enrichWithColumns cs uri objects w))
        = calls w @ [ExecuteQueryWithDatabase COLUMNS_QUERY None]
    \<and> calls (snd (enrichWithColumns cs' uri objects' (snd (enrichWithColumns cs uri objects w))))
        = calls w @ [ExecuteQueryWithDatabase COLUMNS_QUERY None,
                     ExecuteQueryWithDatabase COLUMNS_QUERY None]"
proof -
  define w1 where "w1 = snd (fetchColumns cs w)"
  have f: "fetchColumns cs w = (None, w1)"
    using fetchColumns_failure [OF failure] by (simp add: w1_def prod_eq_iff)
  have e: "enrichWithColumns cs uri objects w = (objects, w1)"
    using tv miss by (simp add: enrichWithColumns_def f)
  have c: "columnCache w1 = columnCache w"
    and l: "calls w1 = calls w @ [ExecuteQueryWithDatabase COLUMNS_QUERY None]"
    using fetchColumns_frame [of cs w] by (simp_all add: w1_def)
  from c miss have "columnCache w1 uri = None" by simp
  from enrich_miss_calls [OF tv' this, of cs'] l
  have "calls (snd (enrichWithColumns cs' uri objects' w1))
        = calls w @ [ExecuteQueryWithDatabase COLUMNS_QUERY None,
                     ExecuteQueryWithDatabase COLUMNS_QUERY None]" by simp
  with e c l show ?thesis by simp
qed

theorem failed_column_fetch_is_retried_witness:
  "filter isTableOrView [ordersTable] \<noteq> []
   \<and> columnCache emptyWorld ''conn-1'' = None
   \<and> queryReply failingService (calls emptyWorld) COLUMNS_QUERY None = Inl (ThrownError ''timeout'')
   \<and> fst (enrichWithColumns failingService ''conn-1'' [ordersTable] emptyWorld) = [ordersTable]
   \<and> columnCache (snd (enrichWithColumns failingService ''conn-1'' [ordersTable] emptyWorld))
       ''conn-1'' = None
   \<and> calls (snd (enrichWithColumns emptyCatalogService ''conn-1'' [ordersTable]
              (snd (enrichWithColumns failingService ''conn-1'' [ordersTable] emptyWorld))))
       = [ExecuteQueryWithDatabase COLUMNS_QUERY None, ExecuteQueryWithDatabase COLUMNS_QUERY None]"
proof -
  have tv: "filter isTableOrView [ordersTable] \<noteq> []"
    by (simp add: isTableOrView_def ordersTable_def mkObject_def)
  have m: "columnCache emptyWorld ''conn-1'' = None" by (simp add: emptyWorld_def)
  have q: "queryReply failingService (calls emptyWorld) COLUMNS_QUERY None
             = Inl (ThrownError ''timeout'')"
    by (simp add: failingService_def constantService_def)
  have f: "(\<exists>e. queryReply failingService (calls emptyWorld) COLUMNS_QUERY None = Inl e)
       \<or> queryReply failingService (calls emptyWorld) COLUMNS_QUERY None = Inr None
       \<or> queryReply failingService (calls emptyWorld) COLUMNS_QUERY None = Inr (Some [])"
    using q by simp
  have c: "calls emptyWorld = []" "columnCache emptyWorld = Map.empty"
    by (simp_all add: emptyWorld_def)
  show ?thesis
    using tv m q c failed_column_fetch_is_retried [OF tv m f tv, of emptyCatalogService]
    by simp
qed

section \<open>The search boundary\<close>

text \<open>
  Claim C7. \<open>search\<close> always returns a sequence, never an exception. When the connection
  service reports no session (an undefined or empty URI), the no-connection warning is
  logged and shown and the result is empty. When anything inside the \<^verbatim>\<open>try\<close> block
  throws, the error is logged and shown as an error message with the prefix
  \<open>Search failed\<close>, the result is empty, and the changes made before the throw stay.
\<close>

theorem search_never_throws:
  "(\<exists>objects w'. search cs config searchTerm clear w = (Inr objects, w'))
   \<and> (uriReply cs (calls w) = Inr None \<or> uriReply cs (calls w) = Inr (Some []) \<longrightarrow>
        search cs config searchTerm clear w
          = (Inr [], emit [LogWarn noConnectionMessage, ShowWarningMessage noConnectionMessage]
                       (called GetCurrentConnectionUri w)))
   \<and> (\<forall>error w'. searchBody cs config searchTerm clear w = (Inl error, w') \<longrightarrow>
        search cs config searchTerm clear w
          = (Inr [], emit [LogError (''Search failed: '' @ extractMessage error),
                           ShowErrorMessage (''Search failed: '' @ extractMessage error)] w'))"
proof (intro conjI impI allI)
  show "\<exists>objects w'. search cs config searchTerm clear w = (Inr objects, w')"
    by (cases "searchBody cs config searchTerm clear w") (auto simp: search_def split: sum.splits)
next
  assume "uriReply cs (calls w) = Inr None \<or> uriReply cs (calls w) = Inr (Some [])"
  then show "search cs config searchTerm clear w
          = (Inr [], emit [LogWarn noConnectionMessage, ShowWarningMessage noConnectionMessage]
                       (called GetCurrentConnectionUri w))"
    by (auto simp: search_def searchBody_def handleNoConnection_def)
next
  fix error w'
  assume "searchBody cs config searchTerm clear w = (Inl error, w')"
  then show "search cs config searchTerm clear w
          = (Inr [], emit [LogError (''Search failed: '' @ extractMessage error),
                           ShowErrorMessage (''Search failed: '' @ extractMessage error)] w')"
    by (simp add: search_def handle_def Let_def)
qed

theorem search_never_throws_witness:
  "uriReply noConnectionService (calls emptyWorld) = Inr None
   \<and> search noConnectionService defaultConfiguration ''cust'' False emptyWorld
       = (Inr [], emit [LogWarn noConnectionMessage, ShowWarningMessage noConnectionMessage]
                    (called GetCurrentConnectionUri emptyWorld))
   \<and> searchBody failingService defaultConfiguration ''cust'' False emptyWorld
       = (Inl (ThrownError ''timeout''),
          called (ExecuteQueryWithDatabase ALL_OBJECTS_QUERY (Some ''Sales''))
            (called GetActiveDatabase (called GetCurrentConnectionUri emptyWorld)))
   \<and> search failingService defaultConfiguration ''cust'' False emptyWorld
       = (Inr [], emit [LogError ''Search failed: timeout'', ShowErrorMessage ''Search failed: timeout'']
            (called (ExecuteQueryWithDatabase ALL_OBJECTS_QUERY (Some ''Sales''))
              (called GetActiveDatabase (called GetCurrentConnectionUri emptyWorld))))"
proof -
  have u: "uriReply noConnectionService (calls emptyWorld) = Inr None"
    by (simp add: noConnectionService_def constantService_def)
  have b: "searchBody failingService defaultConfiguration ''cust'' False emptyWorld
       = (Inl (ThrownError ''timeout''),
          called (ExecuteQueryWithDatabase ALL_OBJECTS_QUERY (Some ''Sales''))
            (called GetActiveDatabase (called GetCurrentConnectionUri emptyWorld)))"
    by (simp add: searchBody_def getOrFetchObjects_def failingService_def constantService_def
          emptyWorld_def called_def)
  show ?thesis
    using u b
      search_never_throws [of noConnectionService defaultConfiguration "''cust''" False emptyWorld]
      search_never_throws [of failingService defaultConfiguration "''cust''" False emptyWorld]
    by simp
qed

section \<open>Fallback scripts\<close>

lemma scriptObject_falsy:
  assumes r: "\<And>h u operation so.
      (\<exists>e. scriptObjectReply api h u operation so = Inl e)
      \<or> scriptObjectReply api h u operation so = Inr None
      \<or> scriptObjectReply api h u operation so = Inr (Some [])"
  shows "\<not> truthy (fst (scriptObject parse api operation sch nm t s))"
proof -
  obtain activeDb s1 where a: "getActiveDatabase api s = (activeDb, s1)"
    by (cases "getActiveDatabase api s")
  obtain uri s2 where u:
    "(case activeDb of
        Some d \<Rightarrow>
          if d \<noteq> [] then getScriptingUri parse api d s1
          else (Inr (fst (getCurrentConnectionUri api s1)), snd (getCurrentConnectionUri api s1))
      | None \<Rightarrow> (Inr (fst (getCurrentConnectionUri api s1)), snd (getCurrentConnectionUri api s1)))
     = (uri, s2)"
    by (cases "(case activeDb of
        Some d \<Rightarrow>
          if d \<noteq> [] then getScriptingUri parse api d s1
          else (Inr (fst (getCurrentConnectionUri api s1)), snd (getCurrentConnectionUri api s1))
      | None \<Rightarrow> (Inr (fst (getCurrentConnectionUri api s1)), snd (getCurrentConnectionUri api s1)))")
  show ?thesis
  proof (cases uri)
    case (Inl e)
    then show ?thesis by (simp add: scriptObject_def scriptObjectBody_def a u)
  next
    case (Inr v)
    show ?thesis
    proof (cases "truthy v \<and> connectionSharing api")
      case False
      with Inr show ?thesis by (auto simp: scriptObject_def scriptObjectBody_def a u)
    next
      case True
      let ?u = "case v of Some x \<Rightarrow> x | None \<Rightarrow> []"
      from r [of "apiCalls s2" ?u operation "(mapObjectTypeForScripting t, sch, nm)"]
      show ?thesis using True Inr
        by (auto simp: scriptObject_def scriptObjectBody_def a u Let_def)
    qed
  qed
qed

lemma wired_scriptReply:
  "scriptReply (wired parse api s cs) h operation sch nm t
     = Inr (fst (scriptObject parse api operation sch nm t s))"
  by (simp add: wired_def)

lemma generateScript_falsy:
  assumes "\<And>operation sch nm t. \<not> truthy (fst (scriptObject parse api operation sch nm t s))"
  shows "fst (generateScript (wired parse api s cs) config obj w) =
     (case getActionForType config (type obj) of
        Select \<Rightarrow> ''-- Could not generate SELECT script for '' @ getQualifiedName obj @ lf
                    @ ''SELECT * FROM '' @ getQualifiedName obj @ '';'' @ lf
      | Create \<Rightarrow> ''-- Could not generate CREATE script for '' @ getQualifiedName obj @ lf
      | Delete \<Rightarrow> ''-- Could not generate DELETE script for '' @ getQualifiedName obj @ lf
      | Execute \<Rightarrow> ''EXEC '' @ getQualifiedName obj @ '';'' @ lf
                     @ ''-- Specify parameters if required'' @ lf
      | Alter \<Rightarrow> ''-- Could not generate ALTER script for '' @ getQualifiedName obj @ lf
      | InsertName \<Rightarrow> getQualifiedName obj)"
proof -
  have f: "\<And>operation. fst (scriptObject parse api operation (schema obj) (name obj) (type obj) s) = None
     \<or> fst (scriptObject parse api operation (schema obj) (name obj) (type obj) s) = Some []"
    using assms [of _ "schema obj" "name obj" "type obj"]
    by (metis truthy.elims(3))
  show ?thesis
  proof (cases "getActionForType config (type obj)")
    case Select
    then show ?thesis using f [of 0]
      by (auto simp: generateScript_def generateSelectScript_def wired_scriptReply Let_def)
  next
    case Create
    then show ?thesis using f [of 1]
      by (auto simp: generateScript_def generateCreateScript_def wired_scriptReply Let_def)
  next
    case Delete
    then show ?thesis using f [of 4]
      by (auto simp: generateScript_def generateDeleteScript_def wired_scriptReply Let_def)
  next
    case Execute
    then show ?thesis using f [of 5]
      by (auto simp: generateScript_def generateExecuteScript_def wired_scriptReply Let_def)
  next
    case Alter
    then show ?thesis using f [of 6]
      by (auto simp: generateScript_def generateAlterScriptViaApi_def wired_scriptReply Let_def)
  next
    case InsertName
    then show ?thesis by (simp add: generateScript_def)
  qed
qed


text \<open>
  Claim C2. \<open>ScriptingService\<close> works over the repository's \<open>ConnectionService\<close>, in
  any state and with any connection-string parser. Take one interface whose scripting call
  throws and one whose scripting call returns \<^verbatim>\<open>undefined\<close> or the empty string.
  \<open>scriptObject\<close> catches the throw and returns \<^verbatim>\<open>undefined\<close>, so for every object
  and every action \<open>generateScript\<close> returns the same text in both cases, fixed by the
  action and the qualified name: the \<open>Could not generate\<close> comment (followed by a plain
  SELECT for Select) for Select, Create, Delete and Alter, and the EXEC template for
  Execute. \<open>generateScript\<close> returns a text on every path.
\<close>

theorem backend_throw_and_empty_result_agree:
  assumes thrown: "\<And>h u operation so. scriptObjectReply apiT h u operation so = Inl error"
    and empty: "\<And>h u operation so.
      scriptObjectReply apiE h u operation so = Inr None
      \<or> scriptObjectReply apiE h u operation so = Inr (Some [])"
  shows
   "fst (generateScript (wired parse apiT sT csT) config obj wT)
      = fst (generateScript (wired parse apiE sE csE) config obj wE)
    \<and> (getActionForType config (type obj) = Select \<longrightarrow>
       fst (generateScript (wired parse apiT sT csT) config obj wT)
         = ''-- Could not generate SELECT script for '' @ getQualifiedName obj @ lf
             @ ''SELECT * FROM '' @ getQualifiedName obj @ '';'' @ lf)
    \<and> (getActionForType config (type obj) = Create \<longrightarrow>
       fst (generateScript (wired parse apiT sT csT) config obj wT)
         = ''-- Could not generate CREATE script for '' @ getQualifiedName obj @ lf)
    \<and> (getActionForType config (type obj) = Delete \<longrightarrow>
       fst (generateScript (wired parse apiT sT csT) config obj wT)
         = ''-- Could not generate DELETE script for '' @ getQualifiedName obj @ lf)
    \<and> (getActionForType config (type obj) = Execute \<longrightarrow>
       fst (generateScript (wired parse apiT sT csT) config obj wT)
         = ''EXEC '' @ getQualifiedName obj @ '';'' @ lf @ ''-- Specify parameters if required'' @ lf)
    \<and> (getActionForType config (type obj) = Alter \<longrightarrow>
       fst (generateScript (wired parse apiT sT csT) config obj wT)
         = ''-- Could not generate ALTER script for '' @ getQualifiedName obj @ lf)"
proof -
  have t: "\<And>operation sch nm t. \<not> truthy (fst (scriptObject parse apiT operation sch nm t sT))"
    by (rule scriptObject_falsy) (simp add: thrown)
  have e: "\<And>operation sch nm t. \<not> truthy (fst (scriptObject parse apiE operation sch nm t sE))"
    by (rule scriptObject_falsy) (use empty in blast)
  show ?thesis
    unfolding generateScript_falsy [of parse apiT sT, OF t]
      generateScript_falsy [of parse apiE sE, OF e]
    by simp
qed

lemma throwing_backend_is_reached:
  "fst (scriptObject exampleParse throwingScriptApi 4 ''dbo'' ''Orders'' Table emptyConnectionState)
     = None
   \<and> last (apiCalls (snd (scriptObject exampleParse throwingScriptApi 4 ''dbo'' ''Orders'' Table
                           emptyConnectionState)))
     = ApiScriptObject ''scripting-uri'' 4 ''Table'' ''dbo'' ''Orders''
   \<and> errorLog (snd (scriptObject exampleParse throwingScriptApi 4 ''dbo'' ''Orders'' Table
                     emptyConnectionState))
     = [LogError ''scriptObject ERROR: dbo.Orders op=4'']"
proof -
  have n: "showNat 4 = ''4''" by code_simp
  show ?thesis
    by (simp add: scriptObject_def scriptObjectBody_def getActiveDatabase_def getScriptingUri_def
          getCurrentConnectionUri_def throwingScriptApi_def workingApi_def constantApi_def
          emptyConnectionState_def exampleParse_def apiCalled_def logged_def Let_def n
          del: showNat.simps)
qed

theorem backend_throw_and_empty_result_agree_witness:
  "scriptObjectReply throwingScriptApi [] ''scripting-uri'' 4 (''Table'', ''dbo'', ''Orders'')
     = Inl (ThrownError ''timeout'')
   \<and> scriptObjectReply workingApi [] ''scripting-uri'' 4 (''Table'', ''dbo'', ''Orders'') = Inr None
   \<and> last (apiCalls (snd (scriptObject exampleParse throwingScriptApi 4 ''dbo'' ''Orders'' Table
                           emptyConnectionState)))
     = ApiScriptObject ''scripting-uri'' 4 ''Table'' ''dbo'' ''Orders''
   \<and> fst (generateScript (wired exampleParse throwingScriptApi emptyConnectionState catalogService)
            defaultConfiguration ordersTable emptyWorld)
       = ''-- Could not generate SELECT script for [dbo].[Orders]'' @ lf
           @ ''SELECT * FROM [dbo].[Orders];'' @ lf
   \<and> fst (generateScript (wired exampleParse workingApi emptyConnectionState catalogService)
            defaultConfiguration ordersTable emptyWorld)
       = ''-- Could not generate SELECT script for [dbo].[Orders]'' @ lf
           @ ''SELECT * FROM [dbo].[Orders];'' @ lf
   \<and> fst (generateScript (wired exampleParse throwingScriptApi emptyConnectionState catalogService)
            createConfiguration ordersTable emptyWorld)
       = ''-- Could not generate CREATE script for [dbo].[Orders]'' @ lf
   \<and> fst (generateScript (wired exampleParse workingApi emptyConnectionState catalogService)
            createConfiguration ordersTable emptyWorld)
       = ''-- Could not generate CREATE script for [dbo].[Orders]'' @ lf
   \<and> fst (generateScript (wired exampleParse throwingScriptApi emptyConnectionState catalogService)
            deleteConfiguration ordersTable emptyWorld)
       = ''-- Could not generate DELETE script for [dbo].[Orders]'' @ lf
   \<and> fst (generateScript (wired exampleParse workingApi emptyConnectionState catalogService)
            deleteConfiguration ordersTable emptyWorld)
       = ''-- Could not generate DELETE script for [dbo].[Orders]'' @ lf
   \<and> fst (generateScript (wired exampleParse throwingScriptApi emptyConnectionState catalogService)
            executeConfiguration ordersTable emptyWorld)
       = ''EXEC [dbo].[Orders];'' @ lf @ ''-- Specify parameters if required'' @ lf
   \<and> fst (generateScript (wired exampleParse workingApi emptyConnectionState catalogService)
            executeConfiguration ordersTable emptyWorld)
       = ''EXEC [dbo].[Orders];'' @ lf @ ''-- Specify parameters if required'' @ lf
   \<and> fst (generateScript (wired exampleParse throwingScriptApi emptyConnectionState catalogService)
            alterConfiguration ordersTable emptyWorld)
       = ''-- Could not generate ALTER script for [dbo].[Orders]'' @ lf
   \<and> fst (generateScript (wired exampleParse workingApi emptyConnectionState catalogService)
            alterConfiguration ordersTable emptyWorld)
       = ''-- Could not generate ALTER script for [dbo].[Orders]'' @ lf"
proof -
  have t: "\<And>h u operation so.
      scriptObjectReply throwingScriptApi h u operation so = Inl (ThrownError ''timeout'')"
    by (simp add: throwingScriptApi_def)
  have e: "\<And>h u operation so.
      scriptObjectReply workingApi h u operation so = Inr None
      \<or> scriptObjectReply workingApi h u operation so = Inr (Some [])"
    by (simp add: workingApi_def constantApi_def)
  have e1: "scriptObjectReply workingApi [] ''scripting-uri'' 4 (''Table'', ''dbo'', ''Orders'')
      = Inr None"
    by (simp add: workingApi_def constantApi_def)
  have a: "getActionForType defaultConfiguration (type ordersTable) = Select"
    "getActionForType createConfiguration (type ordersTable) = Create"
    "getActionForType deleteConfiguration (type ordersTable) = Delete"
    "getActionForType executeConfiguration (type ordersTable) = Execute"
    "getActionForType alterConfiguration (type ordersTable) = Alter"
    by (simp_all add: createConfiguration_def deleteConfiguration_def executeConfiguration_def
          alterConfiguration_def defaultConfiguration_def ordersTable_def mkObject_def)
  have q: "getQualifiedName ordersTable = ''[dbo].[Orders]''"
    by (simp add: getQualifiedName_def ordersTable_def mkObject_def)
  note w = backend_throw_and_empty_result_agree [OF t e, of exampleParse emptyConnectionState
      catalogService _ ordersTable emptyWorld emptyConnectionState catalogService emptyWorld]
  have s1: "fst (generateScript (wired exampleParse throwingScriptApi emptyConnectionState
                 catalogService) defaultConfiguration ordersTable emptyWorld)
       = ''-- Could not generate SELECT script for [dbo].[Orders]'' @ lf
           @ ''SELECT * FROM [dbo].[Orders];'' @ lf"
    using w [of defaultConfiguration, THEN conjunct2] a q by simp
  have c1: "fst (generateScript (wired exampleParse throwingScriptApi emptyConnectionState
                 catalogService) createConfiguration ordersTable emptyWorld)
       = ''-- Could not generate CREATE script for [dbo].[Orders]'' @ lf"
    using w [of createConfiguration, THEN conjunct2] a q by simp
  have d1: "fst (generateScript (wired exampleParse throwingScriptApi emptyConnectionState
                 catalogService) deleteConfiguration ordersTable emptyWorld)
       = ''-- Could not generate DELETE script for [dbo].[Orders]'' @ lf"
    using w [of deleteConfiguration, THEN conjunct2] a q by simp
  have x1: "fst (generateScript (wired exampleParse throwingScriptApi emptyConnectionState
                 catalogService) executeConfiguration ordersTable emptyWorld)
       = ''EXEC [dbo].[Orders];'' @ lf @ ''-- Specify parameters if required'' @ lf"
    using w [of executeConfiguration, THEN conjunct2] a q by simp
  have l1: "fst (generateScript (wired exampleParse throwingScriptApi emptyConnectionState
                 catalogService) alterConfiguration ordersTable emptyWorld)
       = ''-- Could not generate ALTER script for [dbo].[Orders]'' @ lf"
    using w [of alterConfiguration, THEN conjunct2] a q by simp
  show ?thesis
    using t [of "[]" "''scripting-uri''" 4 "(''Table'', ''dbo'', ''Orders'')"] e1
      throwing_backend_is_reached [THEN conjunct2, THEN conjunct1]
      s1 c1 d1 x1 l1
      w [of defaultConfiguration, THEN conjunct1, symmetric]
      w [of createConfiguration, THEN conjunct1, symmetric]
      w [of deleteConfiguration, THEN conjunct1, symmetric]
      w [of executeConfiguration, THEN conjunct1, symmetric]
      w [of alterConfiguration, THEN conjunct1, symmetric]
    by (simp only: simp_thms)
qed

section \<open>The session cache\<close>

lemma getCurrentConnectionUri_resolved:
  assumes "connectionSharing api"
    and "activeEditorConnectionIdReply api (apiCalls s) = Inr (Some c)" and "c \<noteq> []"
    and "activeDatabaseReply api (apiCalls s @ [ApiGetActiveEditorConnectionId]) = Inr d"
  shows "getCurrentConnectionUri api s =
     (let s2 = s\<lparr>apiCalls := apiCalls s @ [ApiGetActiveEditorConnectionId, ApiGetActiveDatabase]\<rparr> in
      if truthy (cachedConnectionUri s) \<and> cachedConnectionId s = Some c \<and> cachedDatabase s = d
      then (cachedConnectionUri s, s2)
      else
        (let s3 = s\<lparr>apiCalls := apiCalls s @ [ApiGetActiveEditorConnectionId, ApiGetActiveDatabase,
                                               ApiConnect c]\<rparr> in
         case connectReply api (apiCalls s @ [ApiGetActiveEditorConnectionId, ApiGetActiveDatabase]) c of
           Inl error \<Rightarrow> uriFailed s3
         | Inr uri \<Rightarrow>
             if truthy uri
             then (uri, s3\<lparr>cachedConnectionUri := uri, cachedConnectionId := Some c,
                            cachedDatabase := d\<rparr>)
             else (uri, s3)))"
  using assms by (simp add: getCurrentConnectionUri_def apiCalled_def Let_def)

lemma getCurrentConnectionUri_Some_cached:
  assumes share: "connectionSharing api"
    and cid: "activeEditorConnectionIdReply api (apiCalls s) = Inr (Some c)"
    and db: "activeDatabaseReply api (apiCalls s @ [ApiGetActiveEditorConnectionId]) = Inr d"
    and first: "getCurrentConnectionUri api s = (Some u, s')" and u: "u \<noteq> []"
  shows "cachedConnectionUri s' = Some u \<and> cachedConnectionId s' = Some c \<and> cachedDatabase s' = d
    \<and> c \<noteq> [] \<and> connectCount (apiCalls s') \<le> connectCount (apiCalls s) + 1"
proof -
  have c: "c \<noteq> []"
    using share cid first by (auto simp: getCurrentConnectionUri_def Let_def)
  show ?thesis
    using first u c unfolding getCurrentConnectionUri_resolved [OF share cid c db]
    by (auto simp: Let_def uriFailed_def connectCount_def split: if_splits sum.splits)
qed

text \<open>
  Claim C6, as the code has it. First part: a resolution sees the connection identity
  \<open>c\<close> and the active database \<open>d\<close> and returns the session identifier \<open>u\<close>; the
  next resolution sees the same pair. Then it returns \<open>u\<close> again, its only calls are the
  two that read the pair, and over both resolutions \<open>connect\<close> is called at most once
  (not at all when the first one was already answered from the cache). Second part: the
  pair that a resolution sees has a connection identity and differs from the cached pair
  in the identity or in the database. Then the cached session is not used: \<open>connect\<close> is
  called for the new identity and the resolution returns what \<open>connect\<close> returns, or
  nothing when it throws. When \<open>connect\<close> returns a session identifier, the cache holds
  the new pair with it; when \<open>connect\<close> throws, the cache is cleared.
\<close>

theorem session_is_reused:
  "(connectionSharing api
      \<and> activeEditorConnectionIdReply api (apiCalls s) = Inr (Some c)
      \<and> activeDatabaseReply api (apiCalls s @ [ApiGetActiveEditorConnectionId]) = Inr d
      \<and> getCurrentConnectionUri api s = (Some u, s') \<and> u \<noteq> []
      \<and> activeEditorConnectionIdReply api (apiCalls s') = Inr (Some c)
      \<and> activeDatabaseReply api (apiCalls s' @ [ApiGetActiveEditorConnectionId]) = Inr d \<longrightarrow>
      getCurrentConnectionUri api s'
        = (Some u, s'\<lparr>apiCalls := apiCalls s' @ [ApiGetActiveEditorConnectionId, ApiGetActiveDatabase]\<rparr>)
      \<and> connectCount (apiCalls (snd (getCurrentConnectionUri api s'))) \<le> connectCount (apiCalls s) + 1)
   \<and> (connectionSharing api
      \<and> activeEditorConnectionIdReply api (apiCalls s) = Inr (Some c) \<and> c \<noteq> []
      \<and> activeDatabaseReply api (apiCalls s @ [ApiGetActiveEditorConnectionId]) = Inr d
      \<and> (cachedConnectionId s \<noteq> Some c \<or> cachedDatabase s \<noteq> d) \<longrightarrow>
      apiCalls (snd (getCurrentConnectionUri api s))
        = apiCalls s @ [ApiGetActiveEditorConnectionId, ApiGetActiveDatabase, ApiConnect c]
      \<and> fst (getCurrentConnectionUri api s)
        = (case connectReply api (apiCalls s @ [ApiGetActiveEditorConnectionId, ApiGetActiveDatabase]) c of
             Inl error \<Rightarrow> None | Inr uri \<Rightarrow> uri)
      \<and> (\<forall>v. connectReply api (apiCalls s @ [ApiGetActiveEditorConnectionId, ApiGetActiveDatabase]) c
                = Inr (Some v) \<and> v \<noteq> [] \<longrightarrow>
             cachedConnectionUri (snd (getCurrentConnectionUri api s)) = Some v
             \<and> cachedConnectionId (snd (getCurrentConnectionUri api s)) = Some c
             \<and> cachedDatabase (snd (getCurrentConnectionUri api s)) = d)
      \<and> (\<forall>error. connectReply api (apiCalls s @ [ApiGetActiveEditorConnectionId, ApiGetActiveDatabase]) c
                = Inl error \<longrightarrow>
             cachedConnectionUri (snd (getCurrentConnectionUri api s)) = None
             \<and> cachedConnectionId (snd (getCurrentConnectionUri api s)) = None
             \<and> cachedDatabase (snd (getCurrentConnectionUri api s)) = None
             \<and> scriptingUriCache (snd (getCurrentConnectionUri api s)) = Map.empty))"
proof (intro conjI impI)
  assume a: "connectionSharing api
      \<and> activeEditorConnectionIdReply api (apiCalls s) = Inr (Some c)
      \<and> activeDatabaseReply api (apiCalls s @ [ApiGetActiveEditorConnectionId]) = Inr d
      \<and> getCurrentConnectionUri api s = (Some u, s') \<and> u \<noteq> []
      \<and> activeEditorConnectionIdReply api (apiCalls s') = Inr (Some c)
      \<and> activeDatabaseReply api (apiCalls s' @ [ApiGetActiveEditorConnectionId]) = Inr d"
  then have k: "cachedConnectionUri s' = Some u \<and> cachedConnectionId s' = Some c
    \<and> cachedDatabase s' = d
    \<and> c \<noteq> [] \<and> connectCount (apiCalls s') \<le> connectCount (apiCalls s) + 1"
    using getCurrentConnectionUri_Some_cached [of api s c d u s'] by simp
  from a k have r: "getCurrentConnectionUri api s'
        = (Some u, s'\<lparr>apiCalls := apiCalls s' @ [ApiGetActiveEditorConnectionId, ApiGetActiveDatabase]\<rparr>)"
    by (simp add: getCurrentConnectionUri_resolved [of api s' c d] Let_def)
  show "getCurrentConnectionUri api s'
        = (Some u, s'\<lparr>apiCalls := apiCalls s' @ [ApiGetActiveEditorConnectionId, ApiGetActiveDatabase]\<rparr>)"
    by (rule r)
  show "connectCount (apiCalls (snd (getCurrentConnectionUri api s')))
          \<le> connectCount (apiCalls s) + 1"
    using k by (simp add: r connectCount_def)
next
  assume a: "connectionSharing api
      \<and> activeEditorConnectionIdReply api (apiCalls s) = Inr (Some c) \<and> c \<noteq> []
      \<and> activeDatabaseReply api (apiCalls s @ [ApiGetActiveEditorConnectionId]) = Inr d
      \<and> (cachedConnectionId s \<noteq> Some c \<or> cachedDatabase s \<noteq> d)"
  then have r: "getCurrentConnectionUri api s =
        (let s3 = s\<lparr>apiCalls := apiCalls s @ [ApiGetActiveEditorConnectionId, ApiGetActiveDatabase,
                                               ApiConnect c]\<rparr> in
         case connectReply api (apiCalls s @ [ApiGetActiveEditorConnectionId, ApiGetActiveDatabase]) c of
           Inl error \<Rightarrow> uriFailed s3
         | Inr uri \<Rightarrow>
             if truthy uri
             then (uri, s3\<lparr>cachedConnectionUri := uri, cachedConnectionId := Some c,
                            cachedDatabase := d\<rparr>)
             else (uri, s3))"
    by (auto simp: getCurrentConnectionUri_resolved [of api s c d] Let_def)
  show "apiCalls (snd (getCurrentConnectionUri api s))
        = apiCalls s @ [ApiGetActiveEditorConnectionId, ApiGetActiveDatabase, ApiConnect c]"
    by (auto simp: r Let_def uriFailed_def clearConnectionCache_def split: sum.splits)
  show "fst (getCurrentConnectionUri api s)
        = (case connectReply api (apiCalls s @ [ApiGetActiveEditorConnectionId, ApiGetActiveDatabase]) c of
             Inl error \<Rightarrow> None | Inr uri \<Rightarrow> uri)"
    by (auto simp: r Let_def uriFailed_def split: sum.splits)
  show "\<forall>v. connectReply api (apiCalls s @ [ApiGetActiveEditorConnectionId, ApiGetActiveDatabase]) c
                = Inr (Some v) \<and> v \<noteq> [] \<longrightarrow>
             cachedConnectionUri (snd (getCurrentConnectionUri api s)) = Some v
             \<and> cachedConnectionId (snd (getCurrentConnectionUri api s)) = Some c
             \<and> cachedDatabase (snd (getCurrentConnectionUri api s)) = d"
    by (auto simp: r Let_def)
  show "\<forall>error. connectReply api (apiCalls s @ [ApiGetActiveEditorConnectionId, ApiGetActiveDatabase]) c
                = Inl error \<longrightarrow>
             cachedConnectionUri (snd (getCurrentConnectionUri api s)) = None
             \<and> cachedConnectionId (snd (getCurrentConnectionUri api s)) = None
             \<and> cachedDatabase (snd (getCurrentConnectionUri api s)) = None
             \<and> scriptingUriCache (snd (getCurrentConnectionUri api s)) = Map.empty"
    by (auto simp: r Let_def uriFailed_def clearConnectionCache_def)
qed

lemma workingApi_first:
  "getCurrentConnectionUri workingApi emptyConnectionState
     = (Some ''uri-editor-1'',
        \<lparr> cachedConnectionUri = Some ''uri-editor-1'', cachedConnectionId = Some ''editor-1'',
          cachedDatabase = Some ''Sales'', scriptingUriCache = Map.empty,
          apiCalls = [ApiGetActiveEditorConnectionId, ApiGetActiveDatabase, ApiConnect ''editor-1''],
          errorLog = [] \<rparr>)"
  by (simp add: getCurrentConnectionUri_def workingApi_def constantApi_def emptyConnectionState_def
        apiCalled_def)

theorem session_is_reused_witness:
  "getCurrentConnectionUri workingApi emptyConnectionState
     = (Some ''uri-editor-1'', snd (getCurrentConnectionUri workingApi emptyConnectionState))
   \<and> fst (getCurrentConnectionUri workingApi
            (snd (getCurrentConnectionUri workingApi emptyConnectionState))) = Some ''uri-editor-1''
   \<and> apiCalls (snd (getCurrentConnectionUri workingApi
                 (snd (getCurrentConnectionUri workingApi emptyConnectionState))))
       = [ApiGetActiveEditorConnectionId, ApiGetActiveDatabase, ApiConnect ''editor-1'',
          ApiGetActiveEditorConnectionId, ApiGetActiveDatabase]
   \<and> cachedDatabase (snd (getCurrentConnectionUri workingApi emptyConnectionState))
       = Some ''Sales''
   \<and> fst (getCurrentConnectionUri otherDatabaseApi
            (snd (getCurrentConnectionUri workingApi emptyConnectionState))) = Some ''uri-2''
   \<and> apiCalls (snd (getCurrentConnectionUri otherDatabaseApi
                 (snd (getCurrentConnectionUri workingApi emptyConnectionState))))
       = [ApiGetActiveEditorConnectionId, ApiGetActiveDatabase, ApiConnect ''editor-1'',
          ApiGetActiveEditorConnectionId, ApiGetActiveDatabase, ApiConnect ''editor-1'']
   \<and> cachedDatabase (snd (getCurrentConnectionUri otherDatabaseApi
                 (snd (getCurrentConnectionUri workingApi emptyConnectionState)))) = Some ''Archive''
   \<and> fst (getCurrentConnectionUri throwingConnectApi
            (snd (getCurrentConnectionUri workingApi emptyConnectionState))) = None
   \<and> cachedConnectionUri (snd (getCurrentConnectionUri throwingConnectApi
                 (snd (getCurrentConnectionUri workingApi emptyConnectionState)))) = None"
proof -
  define s1 where "s1 = snd (getCurrentConnectionUri workingApi emptyConnectionState)"
  have f: "getCurrentConnectionUri workingApi emptyConnectionState = (Some ''uri-editor-1'', s1)"
    by (simp add: s1_def workingApi_first)
  have s1: "apiCalls s1 = [ApiGetActiveEditorConnectionId, ApiGetActiveDatabase, ApiConnect ''editor-1'']"
    "cachedDatabase s1 = Some ''Sales''"
    by (simp_all add: s1_def workingApi_first)
  have w: "connectionSharing workingApi"
    "\<And>h. activeEditorConnectionIdReply workingApi h = Inr (Some ''editor-1'')"
    "\<And>h. activeDatabaseReply workingApi h = Inr (Some ''Sales'')"
    by (simp_all add: workingApi_def constantApi_def)
  have o: "connectionSharing otherDatabaseApi"
    "\<And>h. activeEditorConnectionIdReply otherDatabaseApi h = Inr (Some ''editor-1'')"
    "\<And>h. activeDatabaseReply otherDatabaseApi h = Inr (Some ''Archive'')"
    "\<And>h c. connectReply otherDatabaseApi h c = Inr (Some ''uri-2'')"
    by (simp_all add: otherDatabaseApi_def constantApi_def)
  have t: "connectionSharing throwingConnectApi"
    "\<And>h. activeEditorConnectionIdReply throwingConnectApi h = Inr (Some ''editor-1'')"
    "\<And>h. activeDatabaseReply throwingConnectApi h = Inr (Some ''Archive'')"
    "\<And>h c. connectReply throwingConnectApi h c = Inl (ThrownError ''refused'')"
    by (simp_all add: throwingConnectApi_def constantApi_def)
  have e: "apiCalls emptyConnectionState = []" by (simp add: emptyConnectionState_def)
  show ?thesis
    using session_is_reused [of workingApi emptyConnectionState "''editor-1''" "Some ''Sales''"
        "''uri-editor-1''" s1]
      session_is_reused [of otherDatabaseApi s1 "''editor-1''" "Some ''Archive''"]
      session_is_reused [of throwingConnectApi s1 "''editor-1''" "Some ''Archive''"]
    unfolding s1_def [symmetric]
    by (simp add: f s1 w o t e)
qed

text \<open>
  The claim as the specification states it fails when \<open>connect\<close> returns no session.
  With an unchanged pair, two resolutions in a row then call \<open>connect\<close> twice and cache
  nothing. After a session has been cached for the database \<open>Sales\<close>, a resolution that
  sees the database \<open>Archive\<close> and gets no session from \<open>connect\<close> leaves the cached
  session in place, and the next resolution that sees \<open>Sales\<close> is answered with it
  without a call to \<open>connect\<close>.
\<close>

theorem session_cache_counterexample:
  "fst (getCurrentConnectionUri refusingApi
          (snd (getCurrentConnectionUri refusingApi emptyConnectionState))) = None
   \<and> connectCount (apiCalls (snd (getCurrentConnectionUri refusingApi
          (snd (getCurrentConnectionUri refusingApi emptyConnectionState))))) = 2
   \<and> fst (getCurrentConnectionUri refusingOtherDatabaseApi
          (snd (getCurrentConnectionUri workingApi emptyConnectionState))) = None
   \<and> cachedConnectionUri (snd (getCurrentConnectionUri refusingOtherDatabaseApi
          (snd (getCurrentConnectionUri workingApi emptyConnectionState)))) = Some ''uri-editor-1''
   \<and> getCurrentConnectionUri workingApi
          (snd (getCurrentConnectionUri refusingOtherDatabaseApi
             (snd (getCurrentConnectionUri workingApi emptyConnectionState))))
       = (Some ''uri-editor-1'',
          \<lparr> cachedConnectionUri = Some ''uri-editor-1'', cachedConnectionId = Some ''editor-1'',
            cachedDatabase = Some ''Sales'', scriptingUriCache = Map.empty,
            apiCalls = [ApiGetActiveEditorConnectionId, ApiGetActiveDatabase, ApiConnect ''editor-1'',
                        ApiGetActiveEditorConnectionId, ApiGetActiveDatabase, ApiConnect ''editor-1'',
                        ApiGetActiveEditorConnectionId, ApiGetActiveDatabase],
            errorLog = [] \<rparr>)"
  by (simp add: getCurrentConnectionUri_def refusingApi_def refusingOtherDatabaseApi_def
        workingApi_def constantApi_def emptyConnectionState_def apiCalled_def connectCount_def)

section \<open>Filtering by the search term\<close>

lemma startsWith_iff: "startsWith s p \<longleftrightarrow> (\<exists>r. s = p @ r)"
  by (induction s p rule: startsWith.induct) auto

lemma includes'_iff: "includes' s n \<longleftrightarrow> (\<exists>pre post. s = pre @ n @ post)"
proof (induction s)
  case Nil
  then show ?case by auto
next
  case (Cons c cs)
  have "(\<exists>pre post. c # cs = pre @ n @ post)
          \<longleftrightarrow> (\<exists>r. c # cs = n @ r) \<or> (\<exists>pre post. cs = pre @ n @ post)"
  proof
    assume "\<exists>pre post. c # cs = pre @ n @ post"
    then obtain pre post where e: "c # cs = pre @ n @ post" by blast
    show "(\<exists>r. c # cs = n @ r) \<or> (\<exists>pre post. cs = pre @ n @ post)"
    proof (cases pre)
      case Nil
      with e show ?thesis by auto
    next
      case (Cons a pre')
      with e have "cs = pre' @ n @ post" by simp
      then show ?thesis by blast
    qed
  next
    assume "(\<exists>r. c # cs = n @ r) \<or> (\<exists>pre post. cs = pre @ n @ post)"
    then show "\<exists>pre post. c # cs = pre @ n @ post"
    proof
      assume "\<exists>r. c # cs = n @ r"
      then obtain r where "c # cs = [] @ n @ r" by auto
      then show ?thesis by blast
    next
      assume "\<exists>pre post. cs = pre @ n @ post"
      then obtain pre post where "cs = pre @ n @ post" by blast
      then have "c # cs = (c # pre) @ n @ post" by simp
      then show ?thesis by blast
    qed
  qed
  with Cons show ?case by (simp add: startsWith_iff)
qed

lemma includes'_toLowerCase:
  "includes' (toLowerCase text) (toLowerCase needle) \<longleftrightarrow> containsIgnoringCase text needle"
proof
  assume "includes' (toLowerCase text) (toLowerCase needle)"
  then obtain pre post where "map toLowerChar text = pre @ map toLowerChar needle @ post"
    by (auto simp: includes'_iff toLowerCase_def)
  then obtain us r where 1: "text = us @ r" "map toLowerChar r = map toLowerChar needle @ post"
    by (metis map_eq_append_conv)
  from 1(2) obtain vs ws where "r = vs @ ws" "map toLowerChar vs = map toLowerChar needle"
    by (metis map_eq_append_conv)
  with 1(1) have "text = us @ vs @ ws" "map toLowerChar vs = map toLowerChar needle" by simp_all
  then show "containsIgnoringCase text needle"
    by (auto simp: containsIgnoringCase_def toLowerCase_def)
next
  assume "containsIgnoringCase text needle"
  then obtain pre mid post where "text = pre @ mid @ post" "toLowerCase mid = toLowerCase needle"
    by (auto simp: containsIgnoringCase_def)
  then have "toLowerCase text = toLowerCase pre @ toLowerCase needle @ toLowerCase post"
    by (simp add: toLowerCase_def)
  then show "includes' (toLowerCase text) (toLowerCase needle)"
    unfolding includes'_iff by blast
qed

lemma matchesTerm_iff:
  "matchesTerm (toLowerCase needle) obj
     \<longleftrightarrow> containsIgnoringCase (name obj) needle \<or> containsIgnoringCase (schema obj) needle"
  by (simp add: matchesTerm_def includes'_toLowerCase)

lemma identity_enrichOne: "identity (enrichOne m obj) = identity obj"
  by (simp add: enrichOne_def identity_def split: option.splits)

lemma identity_enrichWithColumns:
  "map identity (fst (enrichWithColumns cs uri objects w)) = map identity objects"
  by (cases "fetchColumns cs w")
     (auto simp: enrichWithColumns_def identity_enrichOne split: option.splits)

lemma search_when_catalog_obtained:
  assumes uri: "uriReply cs (calls w) = Inr (Some uri)" "uri \<noteq> []"
    and db: "databaseReply cs (calls w @ [GetCurrentConnectionUri]) = Inr db"
    and catalog: "getOrFetchObjects cs
         (case db of Some d \<Rightarrow> if d \<noteq> [] then d else ''default'' | None \<Rightarrow> ''default'') db
         (if clear
          then clearCache (Some uri)
                 ((called GetActiveDatabase (called GetCurrentConnectionUri w))\<lparr>objectsCache := Map.empty\<rparr>)
          else called GetActiveDatabase (called GetCurrentConnectionUri w))
       = (Inr catalog, w4)"
    and nonempty: "trim searchTerm \<noteq> []"
  shows "\<exists>objects. fst (search cs config searchTerm clear w) = Inr objects
    \<and> map identity objects
        = map identity (filter (\<lambda>obj. containsIgnoringCase (name obj) searchTerm
                                    \<or> containsIgnoringCase (schema obj) searchTerm) catalog)
    \<and> (\<not> includeTableColumns config \<longrightarrow>
         objects = filter (\<lambda>obj. containsIgnoringCase (name obj) searchTerm
                                \<or> containsIgnoringCase (schema obj) searchTerm) catalog)"
proof -
  let ?filtered = "filter (\<lambda>obj. containsIgnoringCase (name obj) searchTerm
                                \<or> containsIgnoringCase (schema obj) searchTerm) catalog"
  have f: "filter (matchesTerm (toLowerCase searchTerm)) catalog = ?filtered"
    by (rule filter_cong) (simp_all add: matchesTerm_iff)
  have c1: "calls (called GetCurrentConnectionUri w) = calls w @ [GetCurrentConnectionUri]"
    by (simp add: called_def)
  have body: "searchBody cs config searchTerm clear w =
     (if includeTableColumns config
      then (Inr (fst (enrichWithColumns cs uri ?filtered w4)),
            snd (enrichWithColumns cs uri ?filtered w4))
      else (Inr ?filtered, w4))"
    using uri db catalog nonempty
    by (simp add: searchBody_def Let_def c1 f split: prod.splits)
  show ?thesis
    by (simp add: search_def body identity_enrichWithColumns)
qed

lemma search_cust_example:
  "fst (search catalogService defaultConfiguration ''cust'' False emptyWorld)
     = Inr [mkObject ''dbo'' ''Customers'' Table (Some ''Sales''),
            mkObject ''sales'' ''CustomerNotes'' View (Some ''Sales'')]"
  by (simp add: search_def searchBody_def getOrFetchObjects_def catalogService_def
        constantService_def emptyWorld_def called_def emit_def defaultConfiguration_def trim_def
        isSpace_def exampleCatalog_def mkRow_def mkObject_def transformResult_def Let_def
        matchesTerm_def toLowerCase_def toLowerChar_def upperChars_def lowerChars_def)

text \<open>
  Claim C4. The search has a session \<open>uri\<close> and an active database answer \<open>db\<close>, and
  the catalog cache gives the sequence \<open>catalog\<close> for the key (stored or just fetched).
  For a term that is not empty after trimming, the result holds exactly the objects of
  the catalog whose name or schema contains the term case-insensitively, in catalog order:
  it is that filtered sequence itself when column enrichment is off, and the same objects
  (same database, schema, name and type, same order) with column lists attached when it
  is on. The term is matched as given, with any surrounding blanks. In particular, the
  term \<open>cust\<close> over dbo.Customers, dbo.Orders and sales.CustomerNotes gives
  dbo.Customers and sales.CustomerNotes, in that order.
\<close>

theorem search_filters_by_term:
  "(uriReply cs (calls w) = Inr (Some uri) \<and> uri \<noteq> []
      \<and> databaseReply cs (calls w @ [GetCurrentConnectionUri]) = Inr db
      \<and> getOrFetchObjects cs
           (case db of Some d \<Rightarrow> if d \<noteq> [] then d else ''default'' | None \<Rightarrow> ''default'') db
           (if clear
            then clearCache (Some uri)
                   ((called GetActiveDatabase (called GetCurrentConnectionUri w))
                      \<lparr>objectsCache := Map.empty\<rparr>)
            else called GetActiveDatabase (called GetCurrentConnectionUri w))
         = (Inr catalog, w4)
      \<and> trim searchTerm \<noteq> [] \<longrightarrow>
      (\<exists>objects. fst (search cs config searchTerm clear w) = Inr objects
         \<and> map identity objects
             = map identity (filter (\<lambda>obj. containsIgnoringCase (name obj) searchTerm
                                         \<or> containsIgnoringCase (schema obj) searchTerm) catalog)
         \<and> (\<not> includeTableColumns config \<longrightarrow>
              objects = filter (\<lambda>obj. containsIgnoringCase (name obj) searchTerm
                                     \<or> containsIgnoringCase (schema obj) searchTerm) catalog)))
   \<and> fst (search catalogService defaultConfiguration ''cust'' False emptyWorld)
       = Inr [mkObject ''dbo'' ''Customers'' Table (Some ''Sales''),
              mkObject ''sales'' ''CustomerNotes'' View (Some ''Sales'')]"
proof (intro conjI impI)
  assume a: "uriReply cs (calls w) = Inr (Some uri) \<and> uri \<noteq> []
      \<and> databaseReply cs (calls w @ [GetCurrentConnectionUri]) = Inr db
      \<and> getOrFetchObjects cs
           (case db of Some d \<Rightarrow> if d \<noteq> [] then d else ''default'' | None \<Rightarrow> ''default'') db
           (if clear
            then clearCache (Some uri)
                   ((called GetActiveDatabase (called GetCurrentConnectionUri w))
                      \<lparr>objectsCache := Map.empty\<rparr>)
            else called GetActiveDatabase (called GetCurrentConnectionUri w))
         = (Inr catalog, w4)
      \<and> trim searchTerm \<noteq> []"
  show "\<exists>objects. fst (search cs config searchTerm clear w) = Inr objects
         \<and> map identity objects
             = map identity (filter (\<lambda>obj. containsIgnoringCase (name obj) searchTerm
                                         \<or> containsIgnoringCase (schema obj) searchTerm) catalog)
         \<and> (\<not> includeTableColumns config \<longrightarrow>
              objects = filter (\<lambda>obj. containsIgnoringCase (name obj) searchTerm
                                     \<or> containsIgnoringCase (schema obj) searchTerm) catalog)"
    by (rule search_when_catalog_obtained [of cs w uri db clear catalog w4 searchTerm config])
       (simp_all add: a)
next
  show "fst (search catalogService defaultConfiguration ''cust'' False emptyWorld)
       = Inr [mkObject ''dbo'' ''Customers'' Table (Some ''Sales''),
              mkObject ''sales'' ''CustomerNotes'' View (Some ''Sales'')]"
    by (rule search_cust_example)
qed

theorem search_filters_by_term_witness:
  "uriReply catalogService (calls emptyWorld) = Inr (Some ''conn-1'')
   \<and> databaseReply catalogService (calls emptyWorld @ [GetCurrentConnectionUri]) = Inr (Some ''Sales'')
   \<and> fst (getOrFetchObjects catalogService ''Sales'' (Some ''Sales'')
            (called GetActiveDatabase (called GetCurrentConnectionUri emptyWorld)))
       = Inr [mkObject ''dbo'' ''Customers'' Table (Some ''Sales''),
              mkObject ''dbo'' ''Orders'' Table (Some ''Sales''),
              mkObject ''sales'' ''CustomerNotes'' View (Some ''Sales'')]
   \<and> trim '' DBO'' \<noteq> []
   \<and> (\<exists>objects. fst (search catalogService defaultConfiguration '' DBO'' False emptyWorld) = Inr objects
        \<and> objects = filter (\<lambda>obj. containsIgnoringCase (name obj) '' DBO''
                                 \<or> containsIgnoringCase (schema obj) '' DBO'')
                      [mkObject ''dbo'' ''Customers'' Table (Some ''Sales''),
                       mkObject ''dbo'' ''Orders'' Table (Some ''Sales''),
                       mkObject ''sales'' ''CustomerNotes'' View (Some ''Sales'')])
   \<and> fst (search catalogService defaultConfiguration '' DBO'' False emptyWorld) = Inr []
   \<and> fst (search catalogService defaultConfiguration ''cust'' False emptyWorld)
       = Inr [mkObject ''dbo'' ''Customers'' Table (Some ''Sales''),
              mkObject ''sales'' ''CustomerNotes'' View (Some ''Sales'')]"
proof -
  have e: "fst (search catalogService defaultConfiguration '' DBO'' False emptyWorld) = Inr []"
    by (simp add: search_def searchBody_def getOrFetchObjects_def catalogService_def
        constantService_def emptyWorld_def called_def emit_def defaultConfiguration_def trim_def
        isSpace_def exampleCatalog_def mkRow_def mkObject_def transformResult_def Let_def
        matchesTerm_def toLowerCase_def toLowerChar_def upperChars_def lowerChars_def)
  have u: "uriReply catalogService (calls emptyWorld) = Inr (Some ''conn-1'')"
    and d: "databaseReply catalogService (calls emptyWorld @ [GetCurrentConnectionUri])
              = Inr (Some ''Sales'')"
    by (simp_all add: catalogService_def constantService_def)
  define w4 where "w4 = snd (getOrFetchObjects catalogService ''Sales'' (Some ''Sales'')
            (called GetActiveDatabase (called GetCurrentConnectionUri emptyWorld)))"
  have "fst (getOrFetchObjects catalogService ''Sales'' (Some ''Sales'')
            (called GetActiveDatabase (called GetCurrentConnectionUri emptyWorld)))
       = Inr [mkObject ''dbo'' ''Customers'' Table (Some ''Sales''),
              mkObject ''dbo'' ''Orders'' Table (Some ''Sales''),
              mkObject ''sales'' ''CustomerNotes'' View (Some ''Sales'')]"
    by (simp add: getOrFetchObjects_def catalogService_def constantService_def emptyWorld_def
          called_def emit_def exampleCatalog_def mkRow_def mkObject_def transformResult_def Let_def)
  then have g: "getOrFetchObjects catalogService ''Sales'' (Some ''Sales'')
            (called GetActiveDatabase (called GetCurrentConnectionUri emptyWorld))
       = (Inr [mkObject ''dbo'' ''Customers'' Table (Some ''Sales''),
               mkObject ''dbo'' ''Orders'' Table (Some ''Sales''),
               mkObject ''sales'' ''CustomerNotes'' View (Some ''Sales'')], w4)"
    by (simp add: w4_def prod_eq_iff)
  have t: "trim '' DBO'' \<noteq> []" by (simp add: trim_def isSpace_def)
  have c: "\<not> includeTableColumns defaultConfiguration" by (simp add: defaultConfiguration_def)
  show ?thesis
    using u d t c g e
      search_filters_by_term [of catalogService emptyWorld "''conn-1''" "Some ''Sales''" False
        "[mkObject ''dbo'' ''Customers'' Table (Some ''Sales''),
          mkObject ''dbo'' ''Orders'' Table (Some ''Sales''),
          mkObject ''sales'' ''CustomerNotes'' View (Some ''Sales'')]"
        w4 "'' DBO''" defaultConfiguration]
    by simp
qed

section \<open>The row-limit rewrite\<close>

lemma digit_not_space: "isDigit c \<Longrightarrow> \<not> isSpace c"
  by (auto simp: isDigit_def isSpace_def)

lemma paren_classes:
  "\<not> isSpace CHR ''(''" "\<not> isDigit CHR ''(''" "\<not> isSpace CHR '')''" "\<not> isDigit CHR '')''"
  by (simp_all add: isDigit_def isSpace_def)

lemma space_not_digit: "isSpace c \<Longrightarrow> \<not> isDigit c"
  by (auto simp: isDigit_def isSpace_def)

lemma ciEq_T: "ciEq CHR ''T'' c \<longleftrightarrow> c = CHR ''T'' \<or> c = CHR ''t''"
  by (auto simp: ciEq_def toLowerChar_def upperChars_def lowerChars_def split: if_splits)

lemma ciEq_S: "ciEq CHR ''S'' c \<longleftrightarrow> c = CHR ''S'' \<or> c = CHR ''s''"
  by (auto simp: ciEq_def toLowerChar_def upperChars_def lowerChars_def split: if_splits)

lemma keyword_first:
  assumes "matchesKeyword (p # ps) kw"
  shows "\<exists>k r. kw = k # r \<and> ciEq p k \<and> length kw = Suc (length ps)"
proof (cases kw)
  case Nil
  with assms show ?thesis by (simp add: matchesKeyword_def)
next
  case (Cons k r)
  with assms have "ciEq p k" "length r = length ps"
    by (auto simp: matchesKeyword_def dest: list_all2_lengthD)
  with Cons show ?thesis by simp
qed

lemma keyword_SELECT:
  assumes "matchesKeyword ''SELECT'' kw"
  shows "\<exists>k r. kw = k # r \<and> \<not> isSpace k \<and> length kw = 6"
proof -
  from keyword_first [OF assms] obtain k r
    where k: "kw = k # r" "ciEq CHR ''S'' k" "length kw = Suc (length ''ELECT'')"
    by blast
  from k(2) have "\<not> isSpace k" by (auto simp: ciEq_S isSpace_def)
  moreover from k(3) have "length kw = 6" by simp
  ultimately show ?thesis using k(1) by blast
qed

lemma keyword_SELECT_length: "matchesKeyword ''SELECT'' kw \<Longrightarrow> length kw = 6"
  using keyword_SELECT [of kw] by blast

lemma keyword_TOP:
  assumes "matchesKeyword ''TOP'' tp"
  shows "\<exists>t r. tp = t # r \<and> \<not> isSpace t \<and> length tp = 3"
proof -
  from keyword_first [OF assms] obtain t r
    where t: "tp = t # r" "ciEq CHR ''T'' t" "length tp = Suc (length ''OP'')"
    by blast
  from t(2) have "\<not> isSpace t" by (auto simp: ciEq_T isSpace_def)
  moreover from t(3) have "length tp = 3" by simp
  ultimately show ?thesis using t(1) by blast
qed

lemma takeWhile_all:
  "(\<forall>c \<in> set xs. P c) \<Longrightarrow> (ys = [] \<or> \<not> P (hd ys)) \<Longrightarrow> takeWhile P (xs @ ys) = xs"
  by (cases ys) (auto simp: takeWhile_append2)

lemma dropWhile_all:
  "(\<forall>c \<in> set xs. P c) \<Longrightarrow> (ys = [] \<or> \<not> P (hd ys)) \<Longrightarrow> dropWhile P (xs @ ys) = ys"
  by (cases ys) (auto simp: dropWhile_append2)

lemma matchNumber_topNumber:
  assumes "topNumber num post"
  shows "matchNumber (num @ post) = Some post \<and> num \<noteq> [] \<and> \<not> isSpace (hd num)"
proof -
  from assms obtain ds where ds: "ds \<noteq> []" "\<forall>c \<in> set ds. isDigit c"
    and alt: "(num = ds \<and> (post = [] \<or> \<not> isDigit (hd post)))
           \<or> (\<exists>a b. allSpaces a \<and> allSpaces b \<and> num = ''('' @ a @ ds @ b @ '')'')"
    by (auto simp: topNumber_def)
  from ds obtain d ds' where dd: "ds = d # ds'" "isDigit d" "\<forall>c \<in> set ds'. isDigit c"
    by (cases ds) auto
  from alt show ?thesis
  proof
    assume b: "num = ds \<and> (post = [] \<or> \<not> isDigit (hd post))"
    then have "dropWhile isDigit (ds' @ post) = post"
      using dd by (intro dropWhile_all) auto
    moreover from dd have "d \<noteq> CHR ''(''" using paren_classes by auto
    ultimately show ?thesis using b dd
      by (simp add: matchNumber_def digit_not_space)
  next
    assume "\<exists>a b. allSpaces a \<and> allSpaces b \<and> num = ''('' @ a @ ds @ b @ '')''"
    then obtain a b where a: "\<forall>c \<in> set a. isSpace c" and b: "\<forall>c \<in> set b. isSpace c"
      and num: "num = ''('' @ a @ ds @ b @ '')''"
      by (auto simp: allSpaces_def)
    have 1: "dropWhile isSpace (a @ ds @ b @ CHR '')'' # post) = ds @ b @ CHR '')'' # post"
      using a dd by (intro dropWhile_all) (auto simp: digit_not_space)
    have hb: "b @ CHR '')'' # post = [] \<or> \<not> isDigit (hd (b @ CHR '')'' # post))"
      using b by (cases b) (auto simp: space_not_digit paren_classes)
    have 2: "takeWhile isDigit (ds @ b @ CHR '')'' # post) = ds"
      using ds hb by (intro takeWhile_all) auto
    have 3: "dropWhile isDigit (ds @ b @ CHR '')'' # post) = b @ CHR '')'' # post"
      using ds hb by (intro dropWhile_all) auto
    have 4: "dropWhile isSpace (b @ CHR '')'' # post) = CHR '')'' # post"
      using b by (intro dropWhile_all) (auto simp: paren_classes)
    show ?thesis
      using ds by (simp add: num matchNumber_def 1 2 3 4 Let_def paren_classes)
  qed
qed

lemma matchTopAt_clause:
  assumes kw: "matchesKeyword ''SELECT'' kw"
    and ws: "ws \<noteq> []" "allSpaces ws"
    and tp: "matchesKeyword ''TOP'' tp"
    and ws2: "allSpaces ws2"
    and num: "topNumber num post"
  shows "matchTopAt (kw @ ws @ tp @ ws2 @ num @ post) = Some (kw @ ws, post)"
proof -
  from keyword_TOP [OF tp] obtain t r where t: "tp = t # r" "\<not> isSpace t" "length tp = 3"
    by blast
  from matchNumber_topNumber [OF num]
  have n: "matchNumber (num @ post) = Some post" "num \<noteq> []" "\<not> isSpace (hd num)" by simp_all
  have l: "length kw = 6" by (rule keyword_SELECT_length [OF kw])
  have 1: "takeWhile isSpace (ws @ tp @ ws2 @ num @ post) = ws"
    using ws t by (intro takeWhile_all) (auto simp: allSpaces_def)
  have 2: "dropWhile isSpace (ws @ tp @ ws2 @ num @ post) = tp @ ws2 @ num @ post"
    using ws t by (intro dropWhile_all) (auto simp: allSpaces_def)
  have 3: "dropWhile isSpace (ws2 @ num @ post) = num @ post"
    using ws2 n by (intro dropWhile_all) (auto simp: allSpaces_def)
  show ?thesis
    using kw ws tp t(3) by (simp add: matchTopAt_def l 1 2 3 n Let_def)
qed

lemma matchTopAt_Nil: "matchTopAt [] = None"
  by (simp add: matchTopAt_def matchesKeyword_def)

lemma testTop_append: "matchTopAt r \<noteq> None \<Longrightarrow> testTop (pre @ r)"
proof (induction pre)
  case Nil
  then show ?case by (cases r) (simp_all add: matchTopAt_Nil)
next
  case (Cons a pre)
  then show ?case by simp
qed

lemma replaceTop_append:
  "\<forall>i < length pre. matchTopAt (drop i (pre @ r)) = None \<Longrightarrow> matchTopAt r = Some (g, rest) \<Longrightarrow>
   replaceTop (pre @ r) clause = pre @ g @ clause @ rest"
proof (induction pre)
  case Nil
  then show ?case by (cases r) (simp_all add: matchTopAt_Nil)
next
  case (Cons a pre)
  from Cons.prems(1) have 0: "matchTopAt ((a # pre) @ r) = None" by force
  from Cons.prems(1) have "\<forall>i < length pre. matchTopAt (drop i (pre @ r)) = None" by force
  with Cons have "replaceTop (pre @ r) clause = pre @ g @ clause @ rest" by blast
  with 0 show ?case by simp
qed

lemma replaces_existing_top:
  assumes a: "matchesKeyword ''SELECT'' kw \<and> ws \<noteq> [] \<and> allSpaces ws \<and> matchesKeyword ''TOP'' tp
      \<and> allSpaces ws2 \<and> topNumber num post
      \<and> (\<forall>i < length pre. matchTopAt (drop i (pre @ kw @ ws @ tp @ ws2 @ num @ post)) = None)"
  shows "ensureTopClause (pre @ kw @ ws @ tp @ ws2 @ num @ post) rowLimit
        = pre @ kw @ ws @ ''TOP '' @ showInt rowLimit @ post"
proof -
  from a have m: "matchTopAt (kw @ ws @ tp @ ws2 @ num @ post) = Some (kw @ ws, post)"
    by (simp add: matchTopAt_clause)
  then have t: "testTop (pre @ kw @ ws @ tp @ ws2 @ num @ post)"
    by (intro testTop_append) simp
  from a have n: "\<forall>i < length pre. matchTopAt (drop i (pre @ kw @ ws @ tp @ ws2 @ num @ post)) = None"
    by blast
  have "replaceTop (pre @ kw @ ws @ tp @ ws2 @ num @ post) (''TOP '' @ showInt rowLimit)
      = pre @ (kw @ ws) @ (''TOP '' @ showInt rowLimit) @ post"
    by (rule replaceTop_append [OF n m])
  with t show ?thesis
    by (simp add: ensureTopClause_def)
qed


lemma injects_after_leading_select:
  assumes a: "\<not> testTop (ws0 @ kw @ ws @ rest) \<and> allSpaces ws0 \<and> matchesKeyword ''SELECT'' kw
      \<and> ws \<noteq> [] \<and> allSpaces ws \<and> (rest = [] \<or> \<not> isSpace (hd rest))"
  shows "ensureTopClause (ws0 @ kw @ ws @ rest) rowLimit
        = ws0 @ kw @ ws @ ''TOP '' @ showInt rowLimit @ '' '' @ rest"
proof -
  from a obtain k kr where k: "kw = k # kr" "\<not> isSpace k" "length kw = 6"
    using keyword_SELECT [of kw] by blast
  have 1: "takeWhile isSpace (ws0 @ kw @ ws @ rest) = ws0"
    using a k by (intro takeWhile_all) (auto simp: allSpaces_def)
  have 2: "dropWhile isSpace (ws0 @ kw @ ws @ rest) = kw @ ws @ rest"
    using a k by (intro dropWhile_all) (auto simp: allSpaces_def)
  have 3: "takeWhile isSpace (ws @ rest) = ws"
    using a by (intro takeWhile_all) (auto simp: allSpaces_def)
  have 4: "dropWhile isSpace (ws @ rest) = rest"
    using a by (intro dropWhile_all) (auto simp: allSpaces_def)
  from a have t: "\<not> testTop (ws0 @ kw @ ws @ rest)" and kw: "matchesKeyword ''SELECT'' kw"
    and ws: "ws \<noteq> []" by simp_all
  show ?thesis
    by (simp add: ensureTopClause_def t replaceLeadingSelect_def 1 2 3 4 kw ws k(3) Let_def)
qed

lemma matchTopAt_skip: "\<not> ciEq CHR ''S'' c \<Longrightarrow> matchTopAt (c # cs) = None"
  by (simp add: matchTopAt_def matchesKeyword_def)

lemma showInt_1000: "showInt 1000 = ''1000''"
  by code_simp

lemmas regex_defs = matchTopAt_def matchNumber_def matchesKeyword_def
  ciEq_def toLowerChar_def upperChars_def lowerChars_def isSpace_def isDigit_def Let_def

lemma example_parenthesized:
  "ensureTopClause ''SELECT TOP (50) * FROM [dbo].[T]'' 1000 = ''SELECT TOP 1000 * FROM [dbo].[T]''"
proof -
  have "matchTopAt ''SELECT TOP (50) * FROM [dbo].[T]'' = Some (''SELECT '', '' * FROM [dbo].[T]'')"
    by (simp add: regex_defs)
  then show ?thesis by (simp add: ensureTopClause_def showInt_1000)
qed

lemma example_bare:
  "ensureTopClause ''SELECT TOP 50 * FROM [dbo].[T]'' 1000 = ''SELECT TOP 1000 * FROM [dbo].[T]''"
proof -
  have "matchTopAt ''SELECT TOP 50 * FROM [dbo].[T]'' = Some (''SELECT '', '' * FROM [dbo].[T]'')"
    by (simp add: regex_defs)
  then show ?thesis by (simp add: ensureTopClause_def showInt_1000)
qed

lemma example_no_top:
  "ensureTopClause ''SELECT * FROM [dbo].[T]'' 1000 = ''SELECT TOP 1000 * FROM [dbo].[T]''"
proof -
  have m: "matchTopAt ''SELECT * FROM [dbo].[T]'' = None"
    by (simp add: regex_defs)
  have t: "\<not> testTop ''SELECT * FROM [dbo].[T]''"
    by (simp add: m matchTopAt_skip ciEq_S)
  show ?thesis
    by (simp add: ensureTopClause_def t replaceLeadingSelect_def matchesKeyword_def ciEq_def
          toLowerChar_def upperChars_def lowerChars_def isSpace_def showInt_1000 Let_def
          del: testTop.simps)
qed


lemma matchNumber_Some:
  assumes "matchNumber r = Some rest"
  shows "\<exists>num. r = num @ rest \<and> topNumber num rest"
proof (cases r)
  case Nil
  with assms show ?thesis by (simp add: matchNumber_def)
next
  case (Cons c cs)
  show ?thesis
  proof (cases "c = CHR ''(''")
    case True
    define a where "a = takeWhile isSpace cs"
    define r1 where "r1 = dropWhile isSpace cs"
    define ds where "ds = takeWhile isDigit r1"
    define aft where "aft = dropWhile isDigit r1"
    define b where "b = takeWhile isSpace aft"
    define r2 where "r2 = dropWhile isSpace aft"
    have m: "matchNumber r =
        (case r2 of [] \<Rightarrow> None
         | d # r3 \<Rightarrow> if ds \<noteq> [] \<and> d = CHR '')'' then Some r3 else None)"
      unfolding matchNumber_def Cons r1_def ds_def aft_def r2_def Let_def using True by simp
    with assms have r2: "r2 = CHR '')'' # rest" and dsne: "ds \<noteq> []"
      by (auto split: list.splits if_splits)
    have "cs = a @ r1" by (simp add: a_def r1_def)
    also have "r1 = ds @ aft" by (simp add: ds_def aft_def)
    also have "aft = b @ r2" by (simp add: b_def r2_def)
    finally have cs: "cs = a @ ds @ b @ CHR '')'' # rest" by (simp add: r2)
    have sp: "allSpaces a" "allSpaces b"
      by (auto simp: allSpaces_def a_def b_def dest: set_takeWhileD)
    have dg: "\<forall>c \<in> set ds. isDigit c" by (auto simp: ds_def dest: set_takeWhileD)
    have "r = (''('' @ a @ ds @ b @ '')'') @ rest" by (simp add: Cons True cs)
    moreover have "topNumber (''('' @ a @ ds @ b @ '')'') rest"
      unfolding topNumber_def using dsne dg sp by blast
    ultimately show ?thesis by blast
  next
    case False
    with assms Cons have d: "isDigit c" and rest: "rest = dropWhile isDigit cs"
      by (auto simp: matchNumber_def split: if_splits)
    let ?ds = "c # takeWhile isDigit cs"
    have "r = ?ds @ rest" by (simp add: Cons rest)
    moreover have "rest = [] \<or> \<not> isDigit (hd rest)"
      unfolding rest using hd_dropWhile [of isDigit cs] by blast
    then have "topNumber ?ds rest"
      unfolding topNumber_def using d by (intro exI [of _ ?ds]) (auto dest: set_takeWhileD)
    ultimately show ?thesis by blast
  qed
qed

lemma matchTopAt_Some:
  assumes "matchTopAt s = Some (g, rest)"
  shows "topClauseAt s"
proof -
  define kw where "kw = take 6 s"
  define ws where "ws = takeWhile isSpace (drop 6 s)"
  define r1 where "r1 = dropWhile isSpace (drop 6 s)"
  define tp where "tp = take 3 r1"
  define ws2 where "ws2 = takeWhile isSpace (drop 3 r1)"
  define r3 where "r3 = dropWhile isSpace (drop 3 r1)"
  have m: "matchTopAt s =
     (if matchesKeyword ''SELECT'' kw \<and> ws \<noteq> [] \<and> matchesKeyword ''TOP'' tp
      then (case matchNumber r3 of Some rest \<Rightarrow> Some (kw @ ws, rest) | None \<Rightarrow> None)
      else None)"
    unfolding matchTopAt_def kw_def ws_def r1_def tp_def r3_def Let_def by simp
  with assms have k: "matchesKeyword ''SELECT'' kw" "ws \<noteq> []" "matchesKeyword ''TOP'' tp"
    and n: "matchNumber r3 = Some rest"
    by (auto split: if_splits option.splits)
  from matchNumber_Some [OF n] obtain num where num: "r3 = num @ rest" "topNumber num rest"
    by blast
  have "s = kw @ drop 6 s" by (simp add: kw_def)
  also have "drop 6 s = ws @ r1" by (simp add: ws_def r1_def)
  also have "r1 = tp @ drop 3 r1" by (simp add: tp_def)
  also have "drop 3 r1 = ws2 @ r3" by (simp add: ws2_def r3_def)
  finally have s: "s = kw @ ws @ tp @ ws2 @ num @ rest" by (simp add: num)
  have "allSpaces ws" "allSpaces ws2"
    by (auto simp: allSpaces_def ws_def ws2_def dest: set_takeWhileD)
  with s k num show ?thesis unfolding topClauseAt_def by blast
qed

lemma matchTopAt_iff: "matchTopAt s \<noteq> None \<longleftrightarrow> topClauseAt s"
proof
  assume "matchTopAt s \<noteq> None"
  then obtain g rest where "matchTopAt s = Some (g, rest)" by auto
  then show "topClauseAt s" by (rule matchTopAt_Some)
next
  assume "topClauseAt s"
  then show "matchTopAt s \<noteq> None"
    by (auto simp: topClauseAt_def matchTopAt_clause)
qed

lemma testTop_iff: "testTop s \<longleftrightarrow> hasTopClause s"
proof (induction s)
  case Nil
  have "\<not> topClauseAt []" using matchTopAt_iff [of "[]"] by (simp add: matchTopAt_Nil)
  then show ?case by (simp add: hasTopClause_def)
next
  case (Cons c cs)
  have "hasTopClause (c # cs) \<longleftrightarrow> topClauseAt (c # cs) \<or> hasTopClause cs"
  proof
    assume "hasTopClause (c # cs)"
    then obtain pre r where e: "c # cs = pre @ r" "topClauseAt r" by (auto simp: hasTopClause_def)
    show "topClauseAt (c # cs) \<or> hasTopClause cs"
    proof (cases pre)
      case Nil
      with e show ?thesis by simp
    next
      case (Cons a pre')
      with e have "cs = pre' @ r" by simp
      with e(2) show ?thesis unfolding hasTopClause_def by blast
    qed
  next
    assume "topClauseAt (c # cs) \<or> hasTopClause cs"
    then show "hasTopClause (c # cs)"
    proof
      assume "topClauseAt (c # cs)"
      then have "c # cs = [] @ (c # cs) \<and> topClauseAt (c # cs)" by simp
      then show ?thesis unfolding hasTopClause_def by blast
    next
      assume "hasTopClause cs"
      then obtain pre r where "cs = pre @ r" "topClauseAt r" by (auto simp: hasTopClause_def)
      then have "c # cs = (c # pre) @ r \<and> topClauseAt r" by simp
      then show ?thesis unfolding hasTopClause_def by blast
    qed
  qed
  with Cons show ?case by (simp del: not_None_eq add: matchTopAt_iff)
qed

lemma replaceLeadingSelect_unchanged:
  assumes "\<not> startsWithSelect s"
  shows "replaceLeadingSelect s clause = s"
proof -
  define ws0 where "ws0 = takeWhile isSpace s"
  define r0 where "r0 = dropWhile isSpace s"
  define kw where "kw = take 6 r0"
  define ws where "ws = takeWhile isSpace (drop 6 r0)"
  define rest where "rest = dropWhile isSpace (drop 6 r0)"
  have "\<not> (matchesKeyword ''SELECT'' kw \<and> ws \<noteq> [])"
  proof
    assume k: "matchesKeyword ''SELECT'' kw \<and> ws \<noteq> []"
    have "s = ws0 @ r0" by (simp add: ws0_def r0_def)
    also have "r0 = kw @ drop 6 r0" by (simp add: kw_def)
    also have "drop 6 r0 = ws @ rest" by (simp add: ws_def rest_def)
    finally have "s = ws0 @ kw @ ws @ rest" by simp
    moreover have "allSpaces ws0" "allSpaces ws"
      by (auto simp: allSpaces_def ws0_def ws_def dest: set_takeWhileD)
    ultimately have "startsWithSelect s" unfolding startsWithSelect_def using k by blast
    with assms show False by simp
  qed
  then show ?thesis
    unfolding replaceLeadingSelect_def ws0_def r0_def kw_def ws_def Let_def by auto
qed


lemma startsWithSelect_iff:
  "startsWithSelect s \<longleftrightarrow>
     matchesKeyword ''SELECT'' (take 6 (dropWhile isSpace s))
     \<and> takeWhile isSpace (drop 6 (dropWhile isSpace s)) \<noteq> []"
proof
  assume "startsWithSelect s"
  then obtain ws0 kw ws rest where d: "s = ws0 @ kw @ ws @ rest" "allSpaces ws0"
    "matchesKeyword ''SELECT'' kw" "ws \<noteq> []" "allSpaces ws"
    by (auto simp: startsWithSelect_def)
  from keyword_SELECT [OF d(3)] obtain k kr where k: "kw = k # kr" "\<not> isSpace k" "length kw = 6"
    by blast
  have 1: "dropWhile isSpace s = kw @ ws @ rest"
    unfolding d(1) using d(2) k by (intro dropWhile_all) (auto simp: allSpaces_def)
  from d(4,5) obtain w wr where w: "ws = w # wr" "isSpace w" by (cases ws) (auto simp: allSpaces_def)
  show "matchesKeyword ''SELECT'' (take 6 (dropWhile isSpace s))
     \<and> takeWhile isSpace (drop 6 (dropWhile isSpace s)) \<noteq> []"
    using d(3) k(3) w by (simp add: 1)
next
  assume a: "matchesKeyword ''SELECT'' (take 6 (dropWhile isSpace s))
     \<and> takeWhile isSpace (drop 6 (dropWhile isSpace s)) \<noteq> []"
  have "s = takeWhile isSpace s @ take 6 (dropWhile isSpace s)
          @ takeWhile isSpace (drop 6 (dropWhile isSpace s))
          @ dropWhile isSpace (drop 6 (dropWhile isSpace s))"
    by simp
  moreover have "allSpaces (takeWhile isSpace s)"
    "allSpaces (takeWhile isSpace (drop 6 (dropWhile isSpace s)))"
    by (auto simp: allSpaces_def dest: set_takeWhileD)
  ultimately show "startsWithSelect s" unfolding startsWithSelect_def using a by blast
qed

lemma showInt_9: "showInt 9 = ''9''"
  by code_simp

lemma counter_distinct:
  "ensureTopClause ''SELECT DISTINCT TOP 5 a FROM t'' 9 = ''SELECT TOP 9 DISTINCT TOP 5 a FROM t''"
proof -
  have m: "matchTopAt ''SELECT DISTINCT TOP 5 a FROM t'' = None"
    "matchTopAt ''STINCT TOP 5 a FROM t'' = None"
    by (simp_all add: regex_defs)
  have t: "\<not> testTop ''SELECT DISTINCT TOP 5 a FROM t''"
    by (simp add: m matchTopAt_skip ciEq_S)
  show ?thesis
    by (simp add: ensureTopClause_def t replaceLeadingSelect_def matchesKeyword_def ciEq_def
          toLowerChar_def upperChars_def lowerChars_def isSpace_def showInt_9 Let_def
          del: testTop.simps)
qed

lemma counter_no_blank:
  "ensureTopClause ''SELECT* FROM t'' 9 = ''SELECT* FROM t''"
proof -
  have m: "matchTopAt ''SELECT* FROM t'' = None"
    by (simp add: regex_defs)
  have t: "\<not> testTop ''SELECT* FROM t''"
    by (simp add: m matchTopAt_skip ciEq_S)
  show ?thesis
    by (simp add: ensureTopClause_def t replaceLeadingSelect_def matchesKeyword_def ciEq_def
          toLowerChar_def upperChars_def lowerChars_def isSpace_def Let_def
          del: testTop.simps)
qed

lemma counter_comment:
  "ensureTopClause (''-- rows'' @ lf @ ''SELECT * FROM t'') 9 = ''-- rows'' @ lf @ ''SELECT * FROM t''"
proof -
  have m: "matchTopAt ''SELECT * FROM t'' = None" "matchTopAt ''s'' = None"
    "matchTopAt (''s'' @ lf @ ''SELECT * FROM t'') = None"
    by (simp_all add: regex_defs lf_def)
  have t: "\<not> testTop (''-- rows'' @ lf @ ''SELECT * FROM t'')"
    using m by (simp add: matchTopAt_skip ciEq_S lf_def)
  show ?thesis
    using t
    by (simp add: ensureTopClause_def replaceLeadingSelect_def matchesKeyword_def ciEq_def
          toLowerChar_def upperChars_def lowerChars_def isSpace_def Let_def lf_def
          del: testTop.simps)
qed

text \<open>
  Claim C5, as the code has it, for a row limit that is a safe integer. First part: the
  script holds, after \<open>pre\<close>, the keyword SELECT (in any case), at least one blank, the
  keyword TOP, optional blanks and a number, bare or in parentheses, and no such clause
  begins earlier in the script. Then the clause, from TOP to the end of the number, is
  replaced by \<open>TOP\<close>, one blank and the configured limit; everything before and after
  it, and the blanks after SELECT, stay as they are. Second part: the script holds no
  such clause and begins, after optional blanks, with SELECT and at least one blank. Then
  \<open>TOP\<close>, the limit and one blank are put in right after those blanks, and the rest
  stays. Third part: a script that holds no such clause and does not begin that way comes
  back unchanged. With the limit 1000, \<open>SELECT TOP (50) * FROM [dbo].[T]\<close>,
  \<open>SELECT TOP 50 * FROM [dbo].[T]\<close> and \<open>SELECT * FROM [dbo].[T]\<close> all become
  \<open>SELECT TOP 1000 * FROM [dbo].[T]\<close>.
\<close>

theorem ensureTopClause_rewrites:
  "(isSafeInteger rowLimit
      \<and> matchesKeyword ''SELECT'' kw \<and> ws \<noteq> [] \<and> allSpaces ws \<and> matchesKeyword ''TOP'' tp
      \<and> allSpaces ws2 \<and> topNumber num post
      \<and> (\<forall>i < length pre. \<not> topClauseAt (drop i (pre @ kw @ ws @ tp @ ws2 @ num @ post))) \<longrightarrow>
      ensureTopClause (pre @ kw @ ws @ tp @ ws2 @ num @ post) rowLimit
        = pre @ kw @ ws @ ''TOP '' @ showInt rowLimit @ post)
   \<and> (isSafeInteger rowLimit
      \<and> \<not> hasTopClause (ws0 @ kw @ ws @ rest) \<and> allSpaces ws0 \<and> matchesKeyword ''SELECT'' kw
      \<and> ws \<noteq> [] \<and> allSpaces ws \<and> (rest = [] \<or> \<not> isSpace (hd rest)) \<longrightarrow>
      ensureTopClause (ws0 @ kw @ ws @ rest) rowLimit
        = ws0 @ kw @ ws @ ''TOP '' @ showInt rowLimit @ '' '' @ rest)
   \<and> (\<not> hasTopClause script \<and> \<not> startsWithSelect script \<longrightarrow>
      ensureTopClause script rowLimit = script)
   \<and> ensureTopClause ''SELECT TOP (50) * FROM [dbo].[T]'' 1000 = ''SELECT TOP 1000 * FROM [dbo].[T]''
   \<and> ensureTopClause ''SELECT TOP 50 * FROM [dbo].[T]'' 1000 = ''SELECT TOP 1000 * FROM [dbo].[T]''
   \<and> ensureTopClause ''SELECT * FROM [dbo].[T]'' 1000 = ''SELECT TOP 1000 * FROM [dbo].[T]''"
proof (intro conjI impI)
  assume a: "isSafeInteger rowLimit
      \<and> matchesKeyword ''SELECT'' kw \<and> ws \<noteq> [] \<and> allSpaces ws \<and> matchesKeyword ''TOP'' tp
      \<and> allSpaces ws2 \<and> topNumber num post
      \<and> (\<forall>i < length pre. \<not> topClauseAt (drop i (pre @ kw @ ws @ tp @ ws2 @ num @ post)))"
  then have "\<forall>i < length pre. matchTopAt (drop i (pre @ kw @ ws @ tp @ ws2 @ num @ post)) = None"
    using matchTopAt_iff by blast
  with a show "ensureTopClause (pre @ kw @ ws @ tp @ ws2 @ num @ post) rowLimit
        = pre @ kw @ ws @ ''TOP '' @ showInt rowLimit @ post"
    by (intro replaces_existing_top) blast
next
  assume a: "isSafeInteger rowLimit
      \<and> \<not> hasTopClause (ws0 @ kw @ ws @ rest) \<and> allSpaces ws0 \<and> matchesKeyword ''SELECT'' kw
      \<and> ws \<noteq> [] \<and> allSpaces ws \<and> (rest = [] \<or> \<not> isSpace (hd rest))"
  then have "\<not> testTop (ws0 @ kw @ ws @ rest)" by (simp add: testTop_iff)
  with a show "ensureTopClause (ws0 @ kw @ ws @ rest) rowLimit
        = ws0 @ kw @ ws @ ''TOP '' @ showInt rowLimit @ '' '' @ rest"
    by (intro injects_after_leading_select) blast
next
  assume "\<not> hasTopClause script \<and> \<not> startsWithSelect script"
  then show "ensureTopClause script rowLimit = script"
    by (simp add: ensureTopClause_def testTop_iff replaceLeadingSelect_unchanged)
next
  show "ensureTopClause ''SELECT TOP (50) * FROM [dbo].[T]'' 1000 = ''SELECT TOP 1000 * FROM [dbo].[T]''"
    by (rule example_parenthesized)
  show "ensureTopClause ''SELECT TOP 50 * FROM [dbo].[T]'' 1000 = ''SELECT TOP 1000 * FROM [dbo].[T]''"
    by (rule example_bare)
  show "ensureTopClause ''SELECT * FROM [dbo].[T]'' 1000 = ''SELECT TOP 1000 * FROM [dbo].[T]''"
    by (rule example_no_top)
qed

theorem ensureTopClause_rewrites_witness:
  "isSafeInteger 20
   \<and> matchesKeyword ''SELECT'' ''select'' \<and> allSpaces ''  '' \<and> matchesKeyword ''TOP'' ''top''
   \<and> topNumber ''( 5 )'' '' id from t''
   \<and> ensureTopClause ''  select  top ( 5 ) id from t'' 20 = ''  select  TOP 20 id from t''
   \<and> topNumber ''5'' '' id from t''
   \<and> ensureTopClause ''  select  top 5 id from t'' 20 = ''  select  TOP 20 id from t''
   \<and> \<not> hasTopClause ''  Select  id from t''
   \<and> ensureTopClause ''  Select  id from t'' 20 = ''  Select  TOP 20 id from t''
   \<and> \<not> hasTopClause ''EXEC p'' \<and> \<not> startsWithSelect ''EXEC p''
   \<and> ensureTopClause ''EXEC p'' 20 = ''EXEC p''"
proof -
  have sf: "isSafeInteger 20" by (simp add: isSafeInteger_def)
  have kw: "matchesKeyword ''SELECT'' ''select''" "matchesKeyword ''SELECT'' ''Select''"
    and tp: "matchesKeyword ''TOP'' ''top''"
    by (simp_all add: matchesKeyword_def ciEq_def toLowerChar_def upperChars_def lowerChars_def)
  have sp: "allSpaces ''  ''" "allSpaces []" "allSpaces '' ''"
    by (simp_all add: allSpaces_def isSpace_def)
  have "\<exists>a b. allSpaces a \<and> allSpaces b \<and> ''( 5 )'' = ''('' @ a @ ''5'' @ b @ '')''"
    using sp(3) by (intro exI [of _ "'' ''"]) simp
  then have n1: "topNumber ''( 5 )'' '' id from t''"
    unfolding topNumber_def by (intro exI [of _ "''5''"]) (simp add: isDigit_def)
  have n2: "topNumber ''5'' '' id from t''"
    unfolding topNumber_def by (rule exI [of _ "''5''"]) (simp add: isDigit_def)
  have e1: "\<forall>i < length ''  ''.
      \<not> topClauseAt (drop i (''  '' @ ''select'' @ ''  '' @ ''top'' @ '' '' @ ''( 5 )'' @ '' id from t''))"
    by (auto simp: less_Suc_eq matchTopAt_iff [symmetric] matchTopAt_skip ciEq_S)
  have e2: "\<forall>i < length ''  ''.
      \<not> topClauseAt (drop i (''  '' @ ''select'' @ ''  '' @ ''top'' @ '' '' @ ''5'' @ '' id from t''))"
    by (auto simp: less_Suc_eq matchTopAt_iff [symmetric] matchTopAt_skip ciEq_S)
  have m: "matchTopAt ''Select  id from t'' = None"
    by (simp add: regex_defs)
  have t: "\<not> hasTopClause ''  Select  id from t''"
    by (simp add: testTop_iff [symmetric] m matchTopAt_skip ciEq_S)
  have x: "\<not> hasTopClause ''EXEC p''"
    by (simp add: testTop_iff [symmetric] matchTopAt_skip ciEq_S)
  have y: "\<not> startsWithSelect ''EXEC p''"
    by (simp add: startsWithSelect_iff isSpace_def matchesKeyword_def ciEq_def toLowerChar_def
          upperChars_def lowerChars_def)
  have s: "showInt 20 = ''20''" by code_simp
  have h: "\<not> isSpace (hd ''id from t'')" by (simp add: isSpace_def)
  show ?thesis
    using sf kw tp sp n1 n2 e1 e2 t h x y
      ensureTopClause_rewrites [where rowLimit = 20 and kw = "''select''" and ws = "''  ''"
        and tp = "''top''" and ?ws2.0 = "'' ''" and num = "''( 5 )''" and post = "'' id from t''"
        and pre = "''  ''" and ?ws0.0 = "[]" and rest = "[]" and script = "[]"]
      ensureTopClause_rewrites [where rowLimit = 20 and kw = "''select''" and ws = "''  ''"
        and tp = "''top''" and ?ws2.0 = "'' ''" and num = "''5''" and post = "'' id from t''"
        and pre = "''  ''" and ?ws0.0 = "[]" and rest = "[]" and script = "[]"]
      ensureTopClause_rewrites [where rowLimit = 20 and kw = "''Select''" and ws = "''  ''"
        and tp = "[]" and ?ws2.0 = "[]" and num = "[]" and post = "[]"
        and pre = "[]" and ?ws0.0 = "''  ''" and rest = "''id from t''" and script = "''EXEC p''"]
    by (simp add: s del: testTop.simps)
qed

text \<open>
  The claim as the specification states it fails outside these shapes. A numeric TOP
  clause that follows DISTINCT is not replaced: a second TOP is put in front of it. A
  SELECT that is followed by no blank, and a script that begins with a comment line, get
  no TOP at all.
\<close>

theorem ensureTopClause_counterexample:
  "ensureTopClause ''SELECT DISTINCT TOP 5 a FROM t'' 9 = ''SELECT TOP 9 DISTINCT TOP 5 a FROM t''
   \<and> ensureTopClause ''SELECT* FROM t'' 9 = ''SELECT* FROM t''
   \<and> ensureTopClause (''-- rows'' @ lf @ ''SELECT * FROM t'') 9
       = ''-- rows'' @ lf @ ''SELECT * FROM t''"
  using counter_distinct counter_no_blank counter_comment by blast

end
